theory Spec2Isabelle
  imports Complex_Main
begin

section \<open>The screw controller of \<open>scripts/assembly_example.py\<close>\<close>

text \<open>
  \<open>AssemblyDemo.screw\<close> talks to three collaborators: the arm's move group
  (\<open>get_current_joint_values\<close>, \<open>go\<close>, \<open>stop\<close>), the gripper
  (\<open>open_gripper\<close>, \<open>close_gripper\<close>) and the topic \<open>/screw_pos\<close>
  (\<open>rospy.wait_for_message\<close>, which blocks until a message arrives).

  The model is a state-passing embedding. What the collaborators answer is the
  environment \<open>env\<close>; what the controller asks of them is recorded, in order, in the
  \<open>trace\<close> of the state. \<open>open_gripper\<close> and \<open>close_gripper\<close> are one request
  each: what they exchange with the hand is not modelled.

  The heights read from \<open>/screw_pos\<close> are the \<open>float64\<close> field \<open>point.z\<close> of a
  message, which nothing validates: a height is a finite number, an infinity or \<open>nan\<close>
  (type \<open>f64\<close> below). Arithmetic on finite values is exact real arithmetic: rounding
  is outside the model. The joint angles are finite and modelled as real numbers,
  \<open>np.pi\<close> as \<open>pi\<close>. \<open>print(z0, z1, z2)\<close> in line 205 writes to the console and is
  not part of the trace. A ROS shutdown or a keyboard interrupt during a blocking call is
  outside the model as well.
\<close>

text \<open>
  The values of a \<open>float64\<close>, with the subtraction and the comparisons of IEEE 754:
  an operation with a \<open>nan\<close> argument gives \<open>nan\<close>, the difference of two equal
  infinities is \<open>nan\<close>, and every comparison with \<open>nan\<close> is false.
\<close>

datatype f64 = F64 real | PlusInf | MinusInf | NotANumber

fun f64_sub :: "f64 \<Rightarrow> f64 \<Rightarrow> f64" where
  "f64_sub NotANumber b = NotANumber"
| "f64_sub (F64 a) NotANumber = NotANumber"
| "f64_sub PlusInf NotANumber = NotANumber"
| "f64_sub MinusInf NotANumber = NotANumber"
| "f64_sub (F64 a) (F64 b) = F64 (a - b)"
| "f64_sub (F64 a) PlusInf = MinusInf"
| "f64_sub (F64 a) MinusInf = PlusInf"
| "f64_sub PlusInf PlusInf = NotANumber"
| "f64_sub PlusInf (F64 b) = PlusInf"
| "f64_sub PlusInf MinusInf = PlusInf"
| "f64_sub MinusInf MinusInf = NotANumber"
| "f64_sub MinusInf (F64 b) = MinusInf"
| "f64_sub MinusInf PlusInf = MinusInf"

fun f64_lt :: "f64 \<Rightarrow> f64 \<Rightarrow> bool" where
  "f64_lt (F64 a) (F64 b) = (a < b)"
| "f64_lt (F64 a) PlusInf = True"
| "f64_lt MinusInf (F64 b) = True"
| "f64_lt MinusInf PlusInf = True"
| "f64_lt a b = False"

fun f64_ge :: "f64 \<Rightarrow> f64 \<Rightarrow> bool" where
  "f64_ge (F64 a) (F64 b) = (a \<ge> b)"
| "f64_ge PlusInf (F64 b) = True"
| "f64_ge PlusInf PlusInf = True"
| "f64_ge PlusInf MinusInf = True"
| "f64_ge (F64 a) MinusInf = True"
| "f64_ge MinusInf MinusInf = True"
| "f64_ge a b = False"

datatype py_error = IndexError | ValueError | ZeroDivisionError

datatype event =
    SetMaxVelocityScaling real
  | SetMaxAccelerationScaling real
  | OpenGripper
  | CloseGripper
  | GetJointValues
  | Go "real list"
  | Stop
  | Sleep real
  | WaitScrewPos

text \<open>
  \<open>init_joints\<close> is the joint vector read before the loop, \<open>init_screw_pos\<close> the
  \<open>z\<close> of the first message of \<open>/screw_pos\<close>. \<open>joints e k\<close> is the joint vector
  read in iteration \<open>k\<close> of the loop (counted from 0) and \<open>screw_pos e k\<close> the \<open>z\<close>
  of the message awaited at the end of that iteration; \<open>None\<close> says that no message
  arrives any more, so that \<open>wait_for_message\<close> never returns.
\<close>

record env =
  init_joints :: "real list"
  init_screw_pos :: "f64 option"
  joints :: "nat \<Rightarrow> real list"
  screw_pos :: "nat \<Rightarrow> f64 option"

text \<open>
  The local variables \<open>z0\<close>, \<open>z1\<close>, \<open>z2\<close> of \<open>screw\<close>, with two ghost fields:
  \<open>iters\<close> counts the completed passes through the loop body and \<open>trace\<close> lists the
  requests made so far.
\<close>

record screw_state =
  z0 :: f64
  z1 :: f64
  z2 :: f64
  iters :: nat
  trace :: "event list"

text \<open>
  One pass through the loop body ends in one of three ways: it reaches the end of the
  body, it raises (\<open>joint_goal[6]\<close> on a list with fewer than seven entries), or it
  blocks for ever in \<open>wait_for_message\<close>.
\<close>

datatype 's body_result = Continue 's | Raise py_error 's | Block 's

definition emit :: "event list \<Rightarrow> screw_state \<Rightarrow> screw_state" where
  "emit evs s = s\<lparr>trace := trace s @ evs\<rparr>"

text \<open>The \<open>if\<close> branch of the loop body (lines 211 to 214).\<close>

definition reset_actions :: "real list \<Rightarrow> event list" where
  "reset_actions joint_goal = [OpenGripper, Go (joint_goal[6 := - 7 * pi / 8]), Stop]"

text \<open>The \<open>else\<close> branch of the loop body (lines 217 to 221).\<close>

definition engage_actions :: "real list \<Rightarrow> event list" where
  "engage_actions joint_goal = [CloseGripper, Sleep 1, Go (joint_goal[6 := 7 * pi / 8]), Stop]"

text \<open>The loop body, lines 209 to 225.\<close>

definition loop_body :: "env \<Rightarrow> screw_state \<Rightarrow> screw_state body_result" where
  "loop_body e s =
    (let joint_goal = joints e (iters s);
         s1 = emit [GetJointValues] s
     in if length joint_goal \<le> 6 then Raise IndexError s1
        else
          let s2 = (if joint_goal ! 6 \<ge> pi / 2
                    then emit (reset_actions joint_goal) s1
                    else emit (engage_actions joint_goal) s1);
              s3 = emit [WaitScrewPos] s2
          in case screw_pos e (iters s) of
               None \<Rightarrow> Block s3
             | Some z \<Rightarrow> Continue (s3\<lparr>z2 := z, iters := Suc (iters s)\<rparr>))"

text \<open>
  The \<open>while\<close> loop of line 207. \<open>None\<close> is the run that never returns, \<open>Some (Inl err)\<close>
  the run that raises, \<open>Some (Inr s)\<close> the run that leaves the loop in state \<open>s\<close>.
\<close>

partial_function (option) screw_loop ::
  "env \<Rightarrow> screw_state \<Rightarrow> (py_error + screw_state) option" where
  "screw_loop e s =
    (if f64_lt (f64_sub (z0 s) (z2 s)) (F64 0.006)
     then (case loop_body e s of
             Continue s' \<Rightarrow> screw_loop e s'
           | Raise err s' \<Rightarrow> Some (Inl err)
           | Block s' \<Rightarrow> None)
     else Some (Inr s))"

text \<open>The state at the loop's entry: lines 190 to 203 have run, \<open>z\<close> is the first sample.\<close>

definition screw_init :: "real list \<Rightarrow> f64 \<Rightarrow> screw_state" where
  "screw_init joint_goal z =
     \<lparr>z0 = z, z1 = z, z2 = z, iters = 0,
      trace = [SetMaxVelocityScaling 1, SetMaxAccelerationScaling 1, OpenGripper,
               GetJointValues, Go (joint_goal[6 := - 7 * pi / 8]), Stop, WaitScrewPos]\<rparr>"

definition screw :: "env \<Rightarrow> (py_error + screw_state) option" where
  "screw e =
    (let joint_goal = init_joints e
     in if length joint_goal \<le> 6 then Some (Inl IndexError)
        else case init_screw_pos e of
               None \<Rightarrow> None
             | Some z \<Rightarrow> screw_loop e (screw_init joint_goal z))"

text \<open>
  The same loop, observed after at most \<open>n\<close> passes through the body: the status says
  whether the loop is still running, has left (\<open>Done\<close>), is blocked on the sensor
  (\<open>Stalled\<close>) or has raised. It gives the trace of the runs that never return.
\<close>

datatype status = Running | Done | Stalled | Failed py_error

fun run :: "env \<Rightarrow> nat \<Rightarrow> screw_state \<Rightarrow> status \<times> screw_state" where
  "run e 0 s = (if f64_lt (f64_sub (z0 s) (z2 s)) (F64 0.006) then (Running, s) else (Done, s))"
| "run e (Suc n) s =
    (if f64_lt (f64_sub (z0 s) (z2 s)) (F64 0.006)
     then (case loop_body e s of
             Continue s' \<Rightarrow> run e n s'
           | Raise err s' \<Rightarrow> (Failed err, s')
           | Block s' \<Rightarrow> (Stalled, s'))
     else (Done, s))"

text \<open>The requests of one complete pass through the body, from the joint vector it reads.\<close>

definition iteration_events :: "real list \<Rightarrow> event list" where
  "iteration_events joint_goal =
     [GetJointValues]
     @ (if joint_goal ! 6 \<ge> pi / 2 then reset_actions joint_goal else engage_actions joint_goal)
     @ [WaitScrewPos]"

text \<open>A sensor feed that delivers the samples of a list and then stops.\<close>

definition feed_of :: "'a list \<Rightarrow> nat \<Rightarrow> 'a option" where
  "feed_of xs k = (if k < length xs then Some (xs ! k) else None)"

definition synthetic_heights :: "f64 list" where
  "synthetic_heights = [F64 0.100, F64 0.098, F64 0.096, F64 0.093]"

subsection \<open>The controller without \<open>z1\<close>\<close>

text \<open>
  \<open>screw\<close> with the variable \<open>z1\<close> (line 202) removed and nothing else changed. The
  only place that reads \<open>z1\<close> is the \<open>print\<close> of line 205, before the loop, which
  is not part of the trace.
\<close>

record screw_state_no_z1 =
  z0n :: f64
  z2n :: f64
  itersn :: nat
  tracen :: "event list"

definition emit_no_z1 :: "event list \<Rightarrow> screw_state_no_z1 \<Rightarrow> screw_state_no_z1" where
  "emit_no_z1 evs s = s\<lparr>tracen := tracen s @ evs\<rparr>"

definition loop_body_no_z1 :: "env \<Rightarrow> screw_state_no_z1 \<Rightarrow> screw_state_no_z1 body_result" where
  "loop_body_no_z1 e s =
    (let joint_goal = joints e (itersn s);
         s1 = emit_no_z1 [GetJointValues] s
     in if length joint_goal \<le> 6 then Raise IndexError s1
        else
          let s2 = (if joint_goal ! 6 \<ge> pi / 2
                    then emit_no_z1 (reset_actions joint_goal) s1
                    else emit_no_z1 (engage_actions joint_goal) s1);
              s3 = emit_no_z1 [WaitScrewPos] s2
          in case screw_pos e (itersn s) of
               None \<Rightarrow> Block s3
             | Some z \<Rightarrow> Continue (s3\<lparr>z2n := z, itersn := Suc (itersn s)\<rparr>))"

partial_function (option) screw_loop_no_z1 ::
  "env \<Rightarrow> screw_state_no_z1 \<Rightarrow> (py_error + screw_state_no_z1) option" where
  "screw_loop_no_z1 e s =
    (if f64_lt (f64_sub (z0n s) (z2n s)) (F64 0.006)
     then (case loop_body_no_z1 e s of
             Continue s' \<Rightarrow> screw_loop_no_z1 e s'
           | Raise err s' \<Rightarrow> Some (Inl err)
           | Block s' \<Rightarrow> None)
     else Some (Inr s))"

definition screw_init_no_z1 :: "real list \<Rightarrow> f64 \<Rightarrow> screw_state_no_z1" where
  "screw_init_no_z1 joint_goal z =
     \<lparr>z0n = z, z2n = z, itersn = 0,
      tracen = [SetMaxVelocityScaling 1, SetMaxAccelerationScaling 1, OpenGripper,
                GetJointValues, Go (joint_goal[6 := - 7 * pi / 8]), Stop, WaitScrewPos]\<rparr>"

definition screw_no_z1 :: "env \<Rightarrow> (py_error + screw_state_no_z1) option" where
  "screw_no_z1 e =
    (let joint_goal = init_joints e
     in if length joint_goal \<le> 6 then Some (Inl IndexError)
        else case init_screw_pos e of
               None \<Rightarrow> None
             | Some z \<Rightarrow> screw_loop_no_z1 e (screw_init_no_z1 joint_goal z))"

fun run_no_z1 :: "env \<Rightarrow> nat \<Rightarrow> screw_state_no_z1 \<Rightarrow> status \<times> screw_state_no_z1" where
  "run_no_z1 e 0 s = (if f64_lt (f64_sub (z0n s) (z2n s)) (F64 0.006) then (Running, s) else (Done, s))"
| "run_no_z1 e (Suc n) s =
    (if f64_lt (f64_sub (z0n s) (z2n s)) (F64 0.006)
     then (case loop_body_no_z1 e s of
             Continue s' \<Rightarrow> run_no_z1 e n s'
           | Raise err s' \<Rightarrow> (Failed err, s')
           | Block s' \<Rightarrow> (Stalled, s'))
     else (Done, s))"

text \<open>What is left of a state of \<open>screw\<close> when \<open>z1\<close> is dropped.\<close>

definition forget_z1 :: "screw_state \<Rightarrow> screw_state_no_z1" where
  "forget_z1 s = \<lparr>z0n = z0 s, z2n = z2 s, itersn = iters s, tracen = trace s\<rparr>"

section \<open>Pose synthesis in \<open>main\<close>\<close>

text \<open>
  Lines 311 to 336 of \<open>main\<close> build a frame from the sensed orientation of the nut and
  turn it into the orientation of the grasp. They call \<open>numpy\<close> and the module
  \<open>tf.transformations\<close> of ROS, which are libraries outside the repository; the functions
  below follow the library sources (\<open>quaternion_matrix\<close>, \<open>quaternion_from_matrix\<close>,
  \<open>quaternion_from_euler\<close> with the default axes \<open>sxyz\<close>, \<open>quaternion_multiply\<close>,
  \<open>numpy.isclose\<close> with its default tolerances, \<open>numpy.cross\<close>, \<open>numpy.linalg.norm\<close>).
  Quaternions are ordered \<open>(x, y, z, w)\<close> as in ROS.

  Arithmetic is exact real arithmetic with one addition: \<open>numpy\<close> divides \<open>0.0\<close> by
  \<open>0.0\<close> to \<open>nan\<close> and warns, it does not raise. A float is therefore a real number or
  \<open>NaN\<close>; every operation with a \<open>NaN\<close> argument gives \<open>NaN\<close> and every comparison
  with a \<open>NaN\<close> argument is false. The sensed quaternion is taken to be finite, and
  no operation below makes an infinity from finite values, so that the type \<open>fl\<close> has
  no infinity.
\<close>

datatype fl = Fin real | NaN

fun lift2 :: "(real \<Rightarrow> real \<Rightarrow> real) \<Rightarrow> fl \<Rightarrow> fl \<Rightarrow> fl" where
  "lift2 f (Fin a) (Fin b) = Fin (f a b)"
| "lift2 f _ _ = NaN"

definition fadd :: "fl \<Rightarrow> fl \<Rightarrow> fl" where
  "fadd = lift2 (+)"

definition fsub :: "fl \<Rightarrow> fl \<Rightarrow> fl" where
  "fsub = lift2 (-)"

definition fmul :: "fl \<Rightarrow> fl \<Rightarrow> fl" where
  "fmul = lift2 (*)"

fun fneg :: "fl \<Rightarrow> fl" where
  "fneg (Fin a) = Fin (- a)"
| "fneg NaN = NaN"

fun fabs :: "fl \<Rightarrow> fl" where
  "fabs (Fin a) = Fin \<bar>a\<bar>"
| "fabs NaN = NaN"

fun fsqrt :: "fl \<Rightarrow> fl" where
  "fsqrt (Fin a) = Fin (sqrt a)"
| "fsqrt NaN = NaN"

fun fgt :: "fl \<Rightarrow> fl \<Rightarrow> bool" where
  "fgt (Fin a) (Fin b) = (a > b)"
| "fgt _ _ = False"

fun flt :: "fl \<Rightarrow> fl \<Rightarrow> bool" where
  "flt (Fin a) (Fin b) = (a < b)"
| "flt _ _ = False"

type_synonym quat = "real \<times> real \<times> real \<times> real"
type_synonym fquat = "fl \<times> fl \<times> fl \<times> fl"
type_synonym fvec = "fl \<times> fl \<times> fl"
type_synonym 'a mat = "nat \<Rightarrow> nat \<Rightarrow> 'a"

definition of_rows :: "'a list list \<Rightarrow> 'a mat" where
  "of_rows rows = (\<lambda>i j. rows ! i ! j)"

definition transposed :: "'a mat \<Rightarrow> 'a mat" where
  "transposed M = (\<lambda>i j. M j i)"

text \<open>\<open>math.tau\<close>.\<close>

definition tau :: real where
  "tau = 2 * pi"

text \<open>\<open>_EPS\<close> of \<open>tf.transformations\<close>: four times the machine epsilon of a double.\<close>

definition EPS :: real where
  "EPS = 4 / 2 ^ 52"

definition quaternion_matrix :: "quat \<Rightarrow> real mat" where
  "quaternion_matrix quaternion =
    (case quaternion of (x, y, z, w) \<Rightarrow>
       let nq = x * x + y * y + z * z + w * w
       in if nq < EPS then of_rows [[1, 0, 0, 0], [0, 1, 0, 0], [0, 0, 1, 0], [0, 0, 0, 1]]
          else
            let c = sqrt (2 / nq);
                q = [x * c, y * c, z * c, w * c];
                q = (\<lambda>i j. q ! i * q ! j)
            in of_rows
                 [[1 - q 1 1 - q 2 2, q 0 1 - q 2 3, q 0 2 + q 1 3, 0],
                  [q 0 1 + q 2 3, 1 - q 0 0 - q 2 2, q 1 2 - q 0 3, 0],
                  [q 0 2 - q 1 3, q 1 2 + q 0 3, 1 - q 0 0 - q 1 1, 0],
                  [0, 0, 0, 1]])"

definition quaternion_from_euler :: "real \<Rightarrow> real \<Rightarrow> real \<Rightarrow> quat" where
  "quaternion_from_euler ai aj ak =
    (let ai = ai / 2; aj = aj / 2; ak = ak / 2;
         ci = cos ai; si = sin ai;
         cj = cos aj; sj = sin aj;
         ck = cos ak; sk = sin ak;
         cc = ci * ck; cs = ci * sk; sc = si * ck; ss = si * sk
     in (cj * sc - sj * cs, cj * ss + sj * cc, cj * cs - sj * sc, cj * cc + sj * ss))"

text \<open>
  The components of the two arguments are \<open>x0, y0, z0, w0\<close> and \<open>x1, y1, z1, w1\<close>
  in the library; they carry a prefix here, \<open>z0\<close> and \<open>z1\<close> being fields of the
  controller's state.
\<close>

definition quaternion_multiply :: "fquat \<Rightarrow> fquat \<Rightarrow> fquat" where
  "quaternion_multiply quaternion1 quaternion0 =
    (case quaternion0 of (qx0, qy0, qz0, qw0) \<Rightarrow>
     case quaternion1 of (qx1, qy1, qz1, qw1) \<Rightarrow>
       (fadd (fsub (fadd (fmul qx1 qw0) (fmul qy1 qz0)) (fmul qz1 qy0)) (fmul qw1 qx0),
        fadd (fadd (fadd (fmul (fneg qx1) qz0) (fmul qy1 qw0)) (fmul qz1 qx0)) (fmul qw1 qy0),
        fadd (fadd (fsub (fmul qx1 qy0) (fmul qy1 qx0)) (fmul qz1 qw0)) (fmul qw1 qz0),
        fadd (fsub (fsub (fmul (fneg qx1) qx0) (fmul qy1 qy0)) (fmul qz1 qz0)) (fmul qw1 qw0)))"

text \<open>
  \<open>math.sqrt\<close> raises \<open>ValueError\<close> on a negative argument and returns \<open>nan\<close> on
  \<open>nan\<close>; the division of two Python floats raises \<open>ZeroDivisionError\<close> on a zero
  divisor.
\<close>

fun py_sqrt :: "fl \<Rightarrow> py_error + fl" where
  "py_sqrt NaN = Inr NaN"
| "py_sqrt (Fin v) = (if v < 0 then Inl ValueError else Inr (Fin (sqrt v)))"

fun py_div :: "real \<Rightarrow> fl \<Rightarrow> py_error + fl" where
  "py_div a NaN = Inr NaN"
| "py_div a (Fin v) = (if v = 0 then Inl ZeroDivisionError else Inr (Fin (a / v)))"

text \<open>\<open>q[i] = v\<close> on an array of four entries, for \<open>i\<close> from 0 to 3.\<close>

fun put :: "nat \<Rightarrow> fl \<Rightarrow> fquat \<Rightarrow> fquat" where
  "put i v (a, b, c, d) =
     (if i = 0 then (v, b, c, d) else if i = 1 then (a, v, c, d)
      else if i = 2 then (a, b, v, d) else (a, b, c, v))"

text \<open>\<open>q *= c\<close>.\<close>

fun scale :: "fl \<Rightarrow> fquat \<Rightarrow> fquat" where
  "scale c (x, y, z, w) = (fmul x c, fmul y c, fmul z c, fmul w c)"

definition trace4 :: "fl mat \<Rightarrow> fl" where
  "trace4 M = fadd (fadd (fadd (M 0 0) (M 1 1)) (M 2 2)) (M 3 3)"

text \<open>
  \<open>numpy.empty\<close> leaves the four entries of \<open>q\<close> unset; each of them is assigned before
  it is read, so that the initial value does not matter.
\<close>

definition quaternion_from_matrix :: "fl mat \<Rightarrow> py_error + fquat" where
  "quaternion_from_matrix M =
    (let q = (NaN, NaN, NaN, NaN);
         t = trace4 M;
         (t, q) =
           (if fgt t (M 3 3)
            then (t, put 0 (fsub (M 2 1) (M 1 2))
                      (put 1 (fsub (M 0 2) (M 2 0))
                        (put 2 (fsub (M 1 0) (M 0 1))
                          (put 3 t q))))
            else
              let (i, j, k) = (0, 1, 2);
                  (i, j, k) = (if fgt (M 1 1) (M 0 0) then (1, 2, 0) else (i, j, k));
                  (i, j, k) = (if fgt (M 2 2) (M i i) then (2, 0, 1) else (i, j, k));
                  t = fadd (fsub (M i i) (fadd (M j j) (M k k))) (M 3 3)
              in (t, put 3 (fsub (M k j) (M j k))
                      (put k (fadd (M k i) (M i k))
                        (put j (fadd (M i j) (M j i))
                          (put i t q)))))
     in case py_sqrt (fmul t (M 3 3)) of
          Inl err \<Rightarrow> Inl err
        | Inr r \<Rightarrow>
            (case py_div 0.5 r of
               Inl err \<Rightarrow> Inl err
             | Inr c \<Rightarrow> Inr (scale c q)))"

text \<open>\<open>numpy.isclose(a, b)\<close> with \<open>rtol = 1e-05\<close> and \<open>atol = 1e-08\<close>, on finite values.\<close>

definition isclose :: "real \<Rightarrow> real \<Rightarrow> bool" where
  "isclose a b = (\<bar>a - b\<bar> \<le> 1 / 10 ^ 8 + 1 / 10 ^ 5 * \<bar>b\<bar>)"

definition cross :: "fvec \<Rightarrow> fvec \<Rightarrow> fvec" where
  "cross a b =
    (case a of (a0, a1, a2) \<Rightarrow> case b of (b0, b1, b2) \<Rightarrow>
       (fsub (fmul a1 b2) (fmul a2 b1),
        fsub (fmul a2 b0) (fmul a0 b2),
        fsub (fmul a0 b1) (fmul a1 b0)))"

definition norm3 :: "fvec \<Rightarrow> fl" where
  "norm3 v = (case v of (a, b, c) \<Rightarrow> fsqrt (fadd (fadd (fmul a a) (fmul b b)) (fmul c c)))"

text \<open>
  \<open>v /= np.linalg.norm(v)\<close>. The norm of a finite vector is zero only when its three
  entries are zero, so that a zero norm makes every quotient \<open>0.0 / 0.0\<close>, which is
  \<open>nan\<close>.
\<close>

definition div_by_norm :: "fvec \<Rightarrow> fvec" where
  "div_by_norm v =
    (case (v, norm3 v) of
       ((Fin a, Fin b, Fin c), Fin n) \<Rightarrow>
          if n = 0 then (NaN, NaN, NaN) else (Fin (a / n), Fin (b / n), Fin (c / n))
     | _ \<Rightarrow> (NaN, NaN, NaN))"

text \<open>What lines 315 to 331 assign, whichever branch runs.\<close>

record frame =
  z_axis :: fvec
  x_axis :: fvec
  y_axis :: fvec
  q2 :: quat
  pos_offset_fixture_x :: real
  pos_offset_fixture_z :: real
  q_fixture :: quat

text \<open>Line 313: the third column of the rotation matrix, without its last entry.\<close>

definition sensed_z_axis :: "quat \<Rightarrow> real \<times> real \<times> real" where
  "sensed_z_axis q = (let M = quaternion_matrix q in (M 0 2, M 1 2, M 2 2))"

definition frame_builder :: "quat \<Rightarrow> frame" where
  "frame_builder q =
    (case sensed_z_axis q of (zx, zy, zz) \<Rightarrow>
       if isclose zz 1
       then \<lparr>z_axis = (Fin 1, Fin 0, Fin 0),
             x_axis = (Fin 0, Fin 1, Fin 0),
             y_axis = (Fin 0, Fin 0, Fin 1),
             q2 = quaternion_from_euler pi 0 (- tau / 8),
             pos_offset_fixture_x = - 0,
             pos_offset_fixture_z = 0.07,
             q_fixture = quaternion_from_euler pi 0 (tau / 8)\<rparr>
       else
         let z_axis = (Fin zx, Fin zy, Fin zz);
             x_axis = cross z_axis (Fin 0, Fin 0, Fin 1);
             x_axis = div_by_norm x_axis;
             y_axis = cross z_axis x_axis;
             y_axis = div_by_norm y_axis
         in \<lparr>z_axis = z_axis, x_axis = x_axis, y_axis = y_axis,
              q2 = quaternion_from_euler 0 0 (- pi / 4),
              pos_offset_fixture_x = - 0.1027,
              pos_offset_fixture_z = 0,
              q_fixture = quaternion_from_euler (- tau / 4) (- tau / 8) (- tau / 4)\<rparr>)"

fun row4 :: "fvec \<Rightarrow> fl list" where
  "row4 (a, b, c) = [a, b, c, Fin 0]"

text \<open>Lines 333 and 334: the axes are the rows of the array, which is then transposed.\<close>

definition frame_matrix :: "frame \<Rightarrow> fl mat" where
  "frame_matrix f =
     transposed (of_rows [row4 (z_axis f), row4 (x_axis f), row4 (y_axis f),
                          [Fin 0, Fin 0, Fin 0, Fin 1]])"

fun fquat_of :: "quat \<Rightarrow> fquat" where
  "fquat_of (x, y, z, w) = (Fin x, Fin y, Fin z, Fin w)"

text \<open>Lines 311 to 336: the orientation of the grasp pose.\<close>

definition grasp_orientation :: "quat \<Rightarrow> py_error + fquat" where
  "grasp_orientation quat =
    (let f = frame_builder quat;
         mat = frame_matrix f
     in case quaternion_from_matrix mat of
          Inl err \<Rightarrow> Inl err
        | Inr q \<Rightarrow> Inr (quaternion_multiply (fquat_of (q2 f)) q))"

text \<open>
  The rotation of a quaternion: the upper left block of \<open>quaternion_matrix\<close> applied to a
  vector.
\<close>

definition rotate :: "quat \<Rightarrow> real \<times> real \<times> real \<Rightarrow> real \<times> real \<times> real" where
  "rotate q v =
    (case v of (a, b, c) \<Rightarrow>
       let M = quaternion_matrix q
       in (M 0 0 * a + M 0 1 * b + M 0 2 * c,
           M 1 0 * a + M 1 1 * b + M 1 2 * c,
           M 2 0 * a + M 2 1 * b + M 2 2 * c))"

subsection \<open>Orthonormal frames\<close>

text \<open>
  The property of a frame that the specification asks for: the pairwise dot products
  of the three axes are below \<open>1e-6\<close> in absolute value and every norm is within
  \<open>1e-6\<close> of 1. A comparison with \<open>NaN\<close> fails.
\<close>

definition dot :: "fvec \<Rightarrow> fvec \<Rightarrow> fl" where
  "dot a b =
    (case a of (a0, a1, a2) \<Rightarrow> case b of (b0, b1, b2) \<Rightarrow>
       fadd (fadd (fmul a0 b0) (fmul a1 b1)) (fmul a2 b2))"

definition orthonormal :: "frame \<Rightarrow> bool" where
  "orthonormal f =
    (flt (fabs (dot (z_axis f) (x_axis f))) (Fin (1 / 10 ^ 6)) \<and>
     flt (fabs (dot (z_axis f) (y_axis f))) (Fin (1 / 10 ^ 6)) \<and>
     flt (fabs (dot (x_axis f) (y_axis f))) (Fin (1 / 10 ^ 6)) \<and>
     flt (fabs (fsub (Fin 1) (norm3 (z_axis f)))) (Fin (1 / 10 ^ 6)) \<and>
     flt (fabs (fsub (Fin 1) (norm3 (x_axis f)))) (Fin (1 / 10 ^ 6)) \<and>
     flt (fabs (fsub (Fin 1) (norm3 (y_axis f)))) (Fin (1 / 10 ^ 6)))"

section \<open>Properties of the screw controller\<close>

subsection \<open>One pass through the loop body\<close>

lemma loop_body_Continue:
  assumes "6 < length (joints e (iters s))" and "screw_pos e (iters s) = Some z"
  shows "loop_body e s =
           Continue (s\<lparr>trace := trace s @ iteration_events (joints e (iters s)),
                       z2 := z, iters := Suc (iters s)\<rparr>)"
  using assms by (simp add: loop_body_def Let_def emit_def iteration_events_def)

lemma loop_body_Continue_D:
  assumes "loop_body e s = Continue s'"
  shows "6 < length (joints e (iters s)) \<and> (\<exists>z. screw_pos e (iters s) = Some z \<and>
           s' = s\<lparr>trace := trace s @ iteration_events (joints e (iters s)),
                       z2 := z, iters := Suc (iters s)\<rparr>)"
  using assms
  by (auto simp add: loop_body_def Let_def emit_def iteration_events_def
      split: if_splits option.splits)

lemma loop_body_Raise_D:
  assumes "loop_body e s = Raise err s'"
  shows "length (joints e (iters s)) \<le> 6 \<and> err = IndexError \<and> z0 s' = z0 s \<and> z1 s' = z1 s
         \<and> iters s' = iters s"
  using assms by (auto simp add: loop_body_def Let_def emit_def split: if_splits option.splits)

lemma loop_body_Block_D:
  assumes "loop_body e s = Block s'"
  shows "screw_pos e (iters s) = None \<and> z0 s' = z0 s \<and> z1 s' = z1 s \<and> iters s' = iters s"
  using assms by (auto simp add: loop_body_def Let_def emit_def split: if_splits option.splits)

lemma screw_loop_exit: "\<not> f64_lt (f64_sub (z0 s) (z2 s)) (F64 0.006) \<Longrightarrow> screw_loop e s = Some (Inr s)"
  by (subst screw_loop.simps) simp

lemma run_exit: "\<not> f64_lt (f64_sub (z0 s) (z2 s)) (F64 0.006) \<Longrightarrow> run e n s = (Done, s)"
  by (cases n) simp_all

lemma run_step:
  "f64_lt (f64_sub (z0 s) (z2 s)) (F64 0.006) \<Longrightarrow> 6 < length (joints e (iters s)) \<Longrightarrow>
   screw_pos e (iters s) \<noteq> None \<Longrightarrow>
   run e (Suc n) s =
     run e n (s\<lparr>trace := trace s @ iteration_events (joints e (iters s)),
                z2 := the (screw_pos e (iters s)), iters := Suc (iters s)\<rparr>)"
  by (auto simp add: loop_body_Continue)

subsection \<open>Invariants of the loop\<close>

lemma run_invariant:
  "run e n s = (st, s') \<Longrightarrow> z0 s' = z0 s \<and> z1 s' = z1 s \<and> iters s \<le> iters s'"
proof (induction n arbitrary: s)
  case 0
  then show ?case by (auto split: if_splits)
next
  case (Suc n)
  show ?case
  proof (cases "f64_lt (f64_sub (z0 s) (z2 s)) (F64 0.006)")
    case False
    with Suc.prems show ?thesis by simp
  next
    case True
    show ?thesis
    proof (cases "loop_body e s")
      case (Continue s1)
      with True Suc.prems have "run e n s1 = (st, s')" by simp
      from Suc.IH[OF this] loop_body_Continue_D[OF Continue] show ?thesis by auto
    next
      case (Raise err s1)
      with True Suc.prems loop_body_Raise_D[OF Raise] show ?thesis by auto
    next
      case (Block s1)
      with True Suc.prems loop_body_Block_D[OF Block] show ?thesis by auto
    qed
  qed
qed

lemma run_trace:
  "run e n s = (st, s') \<Longrightarrow> st = Running \<or> st = Done \<Longrightarrow>
     trace s' = trace s @ concat (map (\<lambda>k. iteration_events (joints e k)) [iters s..<iters s'])"
proof (induction n arbitrary: s)
  case 0
  then show ?case by (auto split: if_splits)
next
  case (Suc n)
  show ?case
  proof (cases "f64_lt (f64_sub (z0 s) (z2 s)) (F64 0.006)")
    case False
    with Suc.prems show ?thesis by simp
  next
    case True
    show ?thesis
    proof (cases "loop_body e s")
      case (Continue s1)
      with True Suc.prems have r: "run e n s1 = (st, s')" by simp
      from loop_body_Continue_D[OF Continue] obtain z where
        s1: "s1 = s\<lparr>trace := trace s @ iteration_events (joints e (iters s)),
                    z2 := z, iters := Suc (iters s)\<rparr>"
        by blast
      from run_invariant[OF r] s1 have le: "Suc (iters s) \<le> iters s'" by simp
      then have "[iters s..<iters s'] = iters s # [Suc (iters s)..<iters s']"
        by (simp add: upt_conv_Cons)
      with Suc.IH[OF r Suc.prems(2)] s1 show ?thesis by simp
    next
      case (Raise err s1)
      with True Suc.prems show ?thesis by auto
    next
      case (Block s1)
      with True Suc.prems show ?thesis by auto
    qed
  qed
qed

lemma run_iters_le: "run e n s = (st, s') \<Longrightarrow> iters s' \<le> iters s + n"
proof (induction n arbitrary: s)
  case 0
  then show ?case by (auto split: if_splits)
next
  case (Suc n)
  show ?case
  proof (cases "f64_lt (f64_sub (z0 s) (z2 s)) (F64 0.006)")
    case False
    with Suc.prems show ?thesis by simp
  next
    case True
    show ?thesis
    proof (cases "loop_body e s")
      case (Continue s1)
      with True Suc.prems have "run e n s1 = (st, s')" by simp
      from Suc.IH[OF this] loop_body_Continue_D[OF Continue] show ?thesis by auto
    next
      case (Raise err s1)
      with True Suc.prems loop_body_Raise_D[OF Raise] show ?thesis by auto
    next
      case (Block s1)
      with True Suc.prems loop_body_Block_D[OF Block] show ?thesis by auto
    qed
  qed
qed

subsection \<open>The loop and its bounded observation\<close>

lemma screw_loop_returns_run:
  assumes "screw_loop e s = Some r"
  shows "\<exists>n s'. (r = Inr s' \<and> run e n s = (Done, s')) \<or>
                 (\<exists>err. r = Inl err \<and> run e n s = (Failed err, s'))"
  using assms
proof (induction rule: screw_loop.raw_induct[rotated 1, consumes 1, case_names step])
  case (step f e s r)
  show ?case
  proof (cases "f64_lt (f64_sub (z0 s) (z2 s)) (F64 0.006)")
    case False
    with step(2) have "r = Inr s \<and> run e 0 s = (Done, s)" by auto
    then show ?thesis by blast
  next
    case True
    show ?thesis
    proof (cases "loop_body e s")
      case (Continue s1)
      with True step(2) have "f e s1 = Some r" by simp
      from step(1)[OF this] obtain n s' where
        "(r = Inr s' \<and> run e n s1 = (Done, s')) \<or>
         (\<exists>err. r = Inl err \<and> run e n s1 = (Failed err, s'))"
        by blast
      with True Continue have
        "(r = Inr s' \<and> run e (Suc n) s = (Done, s')) \<or>
         (\<exists>err. r = Inl err \<and> run e (Suc n) s = (Failed err, s'))"
        by simp
      then show ?thesis by blast
    next
      case (Raise err s1)
      with True step(2) have "r = Inl err \<and> run e (Suc 0) s = (Failed err, s1)" by auto
      then show ?thesis by blast
    next
      case (Block s1)
      with True step(2) show ?thesis by simp
    qed
  qed
qed

lemma run_Done_screw_loop:
  "run e n s = (Done, s') \<Longrightarrow> screw_loop e s = Some (Inr s')"
proof (induction n arbitrary: s)
  case 0
  then show ?case by (subst screw_loop.simps) (auto split: if_splits)
next
  case (Suc n)
  show ?case
  proof (cases "f64_lt (f64_sub (z0 s) (z2 s)) (F64 0.006)")
    case False
    with Suc.prems show ?thesis by (subst screw_loop.simps) simp
  next
    case True
    show ?thesis
    proof (cases "loop_body e s")
      case (Continue s1)
      with True Suc.prems have "run e n s1 = (Done, s')" by simp
      from Suc.IH[OF this] True Continue show ?thesis by (subst screw_loop.simps) simp
    next
      case (Raise err s1)
      with True Suc.prems show ?thesis by simp
    next
      case (Block s1)
      with True Suc.prems show ?thesis by simp
    qed
  qed
qed

lemma run_never_done:
  assumes J: "\<forall>k. 6 < length (joints e k)"
    and Z: "\<forall>k z. screw_pos e k = Some z \<longrightarrow> f64_lt (f64_sub (z0 s) z) (F64 0.006)"
    and C: "f64_lt (f64_sub (z0 s) (z2 s)) (F64 0.006)"
  shows "fst (run e n s) = Running \<or> fst (run e n s) = Stalled"
  using C Z
proof (induction n arbitrary: s)
  case 0
  then show ?case by simp
next
  case (Suc n)
  show ?case
  proof (cases "loop_body e s")
    case (Continue s1)
    from loop_body_Continue_D[OF Continue] obtain z where
      z: "screw_pos e (iters s) = Some z"
      and s1: "s1 = s\<lparr>trace := trace s @ iteration_events (joints e (iters s)),
                    z2 := z, iters := Suc (iters s)\<rparr>"
      by blast
    from z Suc.prems(2) have "f64_lt (f64_sub (z0 s) z) (F64 0.006)" by blast
    with s1 have c1: "f64_lt (f64_sub (z0 s1) (z2 s1)) (F64 0.006)" by simp
    from s1 Suc.prems(2) have z1: "\<forall>k z. screw_pos e k = Some z \<longrightarrow> f64_lt (f64_sub (z0 s1) z) (F64 0.006)" by simp
    from Suc.IH[OF c1 z1] Suc.prems(1) Continue show ?thesis by simp
  next
    case (Raise err s1)
    from loop_body_Raise_D[OF Raise] J show ?thesis by (simp add: not_le[symmetric])
  next
    case (Block s1)
    with Suc.prems(1) show ?thesis by simp
  qed
qed

lemma run_all_samples:
  assumes J: "\<forall>k. 6 < length (joints e k)"
    and Z: "\<forall>k. \<exists>z. screw_pos e k = Some z \<and> f64_lt (f64_sub (z0 s) z) (F64 0.006)"
    and C: "f64_lt (f64_sub (z0 s) (z2 s)) (F64 0.006)"
  shows "fst (run e n s) = Running \<and> iters (snd (run e n s)) = iters s + n"
  using C Z
proof (induction n arbitrary: s)
  case 0
  then show ?case by simp
next
  case (Suc n)
  from Suc.prems(2) obtain z where z: "screw_pos e (iters s) = Some z" "f64_lt (f64_sub (z0 s) z) (F64 0.006)"
    by blast
  from J have j: "6 < length (joints e (iters s))" by blast
  let ?s1 = "s\<lparr>trace := trace s @ iteration_events (joints e (iters s)),
                    z2 := z, iters := Suc (iters s)\<rparr>"
  have c1: "f64_lt (f64_sub (z0 ?s1) (z2 ?s1)) (F64 0.006)" using z by simp
  have z1: "\<forall>k. \<exists>z. screw_pos e k = Some z \<and> f64_lt (f64_sub (z0 ?s1) z) (F64 0.006)" using Suc.prems(2) by simp
  from Suc.IH[OF c1 z1] Suc.prems(1) loop_body_Continue[OF j z(1)] show ?case by simp
qed


lemma screw_loop_Done_iters:
  assumes "screw_loop e s = Some (Inr s')" and "f64_lt (f64_sub (z0 s) (z2 s)) (F64 0.006)"
  shows "Suc (iters s) \<le> iters s'"
proof -
  from screw_loop_returns_run[OF assms(1)] obtain n where r: "run e n s = (Done, s')" by auto
  show ?thesis
  proof (cases n)
    case 0
    with r assms(2) show ?thesis by simp
  next
    case (Suc m)
    show ?thesis
    proof (cases "loop_body e s")
      case (Continue s1)
      with Suc r assms(2) have "run e m s1 = (Done, s')" by simp
      from run_invariant[OF this] loop_body_Continue_D[OF Continue] show ?thesis by auto
    next
      case (Raise err s1)
      with Suc r assms(2) show ?thesis by simp
    next
      case (Block s1)
      with Suc r assms(2) show ?thesis by simp
    qed
  qed
qed

lemma run_stalled:
  assumes J: "\<forall>k. 6 < length (joints e k)"
    and N: "screw_pos e K = None"
  shows "f64_lt (f64_sub (z0 s) (z2 s)) (F64 0.006) \<Longrightarrow> \<forall>k z. screw_pos e k = Some z \<longrightarrow> f64_lt (f64_sub (z0 s) z) (F64 0.006) \<Longrightarrow>
         iters s \<le> K \<Longrightarrow> \<forall>k. iters s \<le> k \<and> k < K \<longrightarrow> screw_pos e k \<noteq> None \<Longrightarrow>
         K - iters s < n \<Longrightarrow> fst (run e n s) = Stalled"
proof (induction n arbitrary: s)
  case 0
  then show ?case by simp
next
  case (Suc n)
  from J have j: "6 < length (joints e (iters s))" by blast
  show ?case
  proof (cases "screw_pos e (iters s)")
    case None
    with j Suc.prems(1) show ?thesis
      by (simp add: loop_body_def Let_def not_le[symmetric])
  next
    case (Some z)
    let ?s1 = "s\<lparr>trace := trace s @ iteration_events (joints e (iters s)),
                    z2 := z, iters := Suc (iters s)\<rparr>"
    from Some N have ne: "iters s \<noteq> K" by auto
    from Some Suc.prems(2) have "f64_lt (f64_sub (z0 s) z) (F64 0.006)" by blast
    then have c1: "f64_lt (f64_sub (z0 ?s1) (z2 ?s1)) (F64 0.006)" by simp
    have z1: "\<forall>k z. screw_pos e k = Some z \<longrightarrow> f64_lt (f64_sub (z0 ?s1) z) (F64 0.006)" using Suc.prems(2) by simp
    have le: "iters ?s1 \<le> K" using ne Suc.prems(3) by simp
    have a: "\<forall>k. iters ?s1 \<le> k \<and> k < K \<longrightarrow> screw_pos e k \<noteq> None" using Suc.prems(4) by simp
    have lt: "K - iters ?s1 < n" using Suc.prems(5) ne Suc.prems(3) by simp
    from Suc.IH[OF c1 z1 le a lt] Suc.prems(1) loop_body_Continue[OF j Some] show ?thesis
      by simp
  qed
qed

lemma screw_loop_never_returns:
  assumes J: "\<forall>k. 6 < length (joints e k)"
    and Z: "\<forall>k z. screw_pos e k = Some z \<longrightarrow> f64_lt (f64_sub (z0 s) z) (F64 0.006)"
    and C: "f64_lt (f64_sub (z0 s) (z2 s)) (F64 0.006)"
  shows "screw_loop e s = None"
proof (cases "screw_loop e s")
  case None
  then show ?thesis .
next
  case (Some r)
  from screw_loop_returns_run[OF Some] obtain n s' where
    "(r = Inr s' \<and> run e n s = (Done, s')) \<or> (\<exists>err. r = Inl err \<and> run e n s = (Failed err, s'))"
    by blast
  then have "fst (run e n s) = Done \<or> (\<exists>err. fst (run e n s) = Failed err)" by auto
  with run_never_done[OF J Z C, of n] show ?thesis by auto
qed

lemma count_open_gripper:
  "length (filter (\<lambda>ev. ev = OpenGripper) (concat (map (\<lambda>k. iteration_events (js k)) ks)))
   = length (filter (\<lambda>k. pi / 2 \<le> js k ! 6) ks)"
  by (induction ks) (simp_all add: iteration_events_def reset_actions_def engage_actions_def)

lemma reset_target_below_limit: "- 7 * pi / 8 < pi / 2"
  using pi_gt_zero by linarith

lemma engage_target_above_limit: "pi / 2 \<le> 7 * pi / 8"
  using pi_gt_zero by linarith

lemma zero_below_limit: "\<not> pi / 2 \<le> 0"
  using pi_gt_zero by linarith

lemma f64_ge_iff_not_lt:
  "p \<noteq> NotANumber \<Longrightarrow> f64_ge p (F64 d) = (\<not> f64_lt p (F64 d))"
  by (cases p) auto

lemma f64_sub_finite_nan: "f64_sub (F64 a) z = NotANumber \<longleftrightarrow> z = NotANumber"
  by (cases z) auto

lemma nan_sample_run:
  "run \<lparr>init_joints = replicate 7 0, init_screw_pos = Some (F64 0.100),
         joints = (\<lambda>k. replicate 7 0), screw_pos = sp\<rparr> (Suc 0)
       (screw_init (replicate 7 0) (F64 0.100))
   = (Done, (screw_init (replicate 7 0) (F64 0.100))
        \<lparr>trace := trace (screw_init (replicate 7 0) (F64 0.100))
                    @ iteration_events (replicate 7 0),
         z2 := NotANumber, iters := Suc 0\<rparr>)"
  if "sp 0 = Some NotANumber"
  using that by (simp add: run_step run_exit screw_init_def del: run.simps)

text \<open>
  Claim C4, with a height sample that is \<open>nan\<close>: after the first pass \<open>z2\<close> is \<open>nan\<close>,
  the test \<open>z0 - z2 < 0.006\<close> is false and the loop is left, although \<open>z0 - z2\<close> is not
  at least \<open>0.006\<close>.
\<close>
theorem screw_leaves_loop_on_nan_sample:
  "\<exists>s. screw \<lparr>init_joints = replicate 7 0, init_screw_pos = Some (F64 0.100),
                joints = (\<lambda>k. replicate 7 0), screw_pos = feed_of [NotANumber]\<rparr>
          = Some (Inr s)
        \<and> iters s = 1 \<and> z0 s = F64 0.100 \<and> z2 s = NotANumber
        \<and> \<not> f64_ge (f64_sub (z0 s) (z2 s)) (F64 0.006)"
proof -
  let ?e = "\<lparr>init_joints = replicate 7 0, init_screw_pos = Some (F64 0.100),
                joints = (\<lambda>k. replicate 7 0), screw_pos = feed_of [NotANumber]\<rparr>"
  let ?s = "(screw_init (replicate 7 0) (F64 0.100))
        \<lparr>trace := trace (screw_init (replicate 7 0) (F64 0.100))
                    @ iteration_events (replicate 7 0),
         z2 := NotANumber, iters := Suc 0\<rparr>"
  have "run ?e (Suc 0) (screw_init (replicate 7 0) (F64 0.100)) = (Done, ?s)"
    by (rule nan_sample_run) (simp add: feed_of_def)
  from run_Done_screw_loop[OF this] have "screw ?e = Some (Inr ?s)"
    by (simp add: screw_def Let_def)
  moreover have "iters ?s = 1 \<and> z0 ?s = F64 0.100 \<and> z2 ?s = NotANumber
        \<and> \<not> f64_ge (f64_sub (z0 ?s) (z2 ?s)) (F64 0.006)"
    by (simp add: screw_init_def)
  ultimately show ?thesis by blast
qed

text \<open>
  Claim C4, as the code has it. One pass through the loop body first reads the joint
  vector. When its wrist angle is at or above \<open>pi / 2\<close> the pass opens the gripper and
  commands the wrist to \<open>- 7 * pi / 8\<close>; otherwise it closes the gripper, sleeps for one
  second and commands the wrist to \<open>7 * pi / 8\<close>. It then waits for the next height
  sample, which becomes \<open>z2\<close> (or blocks when none arrives). The loop is left in a state
  exactly when the test \<open>z0 - z2 < 0.006\<close> is false there; otherwise the body runs
  again. When \<open>z0 - z2\<close> is not \<open>nan\<close>, the test is false exactly when \<open>z0 - z2\<close> is
  at least \<open>0.006\<close>.
\<close>
theorem screw_iteration_protocol:
  assumes "6 < length (joints e (iters s))"
  shows "loop_body e s =
          (let joint_goal = joints e (iters s);
               requested = s\<lparr>trace := trace s @ [GetJointValues]
                  @ (if pi / 2 \<le> joint_goal ! 6
                     then [OpenGripper, Go (joint_goal[6 := - 7 * pi / 8]), Stop]
                     else [CloseGripper, Sleep 1, Go (joint_goal[6 := 7 * pi / 8]), Stop])
                  @ [WaitScrewPos]\<rparr>
           in case screw_pos e (iters s) of
                None \<Rightarrow> Block requested
              | Some z \<Rightarrow> Continue (requested\<lparr>z2 := z, iters := Suc (iters s)\<rparr>))
        \<and> screw_loop e s =
            (if f64_lt (f64_sub (z0 s) (z2 s)) (F64 0.006)
             then case loop_body e s of
                    Continue s' \<Rightarrow> screw_loop e s'
                  | Raise err s' \<Rightarrow> Some (Inl err)
                  | Block s' \<Rightarrow> None
             else Some (Inr s))
        \<and> run e 0 s =
            (if f64_lt (f64_sub (z0 s) (z2 s)) (F64 0.006) then (Running, s) else (Done, s))
        \<and> (f64_sub (z0 s) (z2 s) \<noteq> NotANumber \<longrightarrow>
             f64_ge (f64_sub (z0 s) (z2 s)) (F64 0.006)
             = (\<not> f64_lt (f64_sub (z0 s) (z2 s)) (F64 0.006)))"
proof -
  have a: "screw_loop e s =
            (if f64_lt (f64_sub (z0 s) (z2 s)) (F64 0.006)
             then case loop_body e s of
                    Continue s' \<Rightarrow> screw_loop e s'
                  | Raise err s' \<Rightarrow> Some (Inl err)
                  | Block s' \<Rightarrow> None
             else Some (Inr s))"
    by (subst screw_loop.simps) simp
  have b: "run e 0 s =
            (if f64_lt (f64_sub (z0 s) (z2 s)) (F64 0.006) then (Running, s) else (Done, s))"
    by simp
  from assms have c: "loop_body e s =
          (let joint_goal = joints e (iters s);
               requested = s\<lparr>trace := trace s @ [GetJointValues]
                  @ (if pi / 2 \<le> joint_goal ! 6
                     then [OpenGripper, Go (joint_goal[6 := - 7 * pi / 8]), Stop]
                     else [CloseGripper, Sleep 1, Go (joint_goal[6 := 7 * pi / 8]), Stop])
                  @ [WaitScrewPos]\<rparr>
           in case screw_pos e (iters s) of
                None \<Rightarrow> Block requested
              | Some z \<Rightarrow> Continue (requested\<lparr>z2 := z, iters := Suc (iters s)\<rparr>))"
    by (simp add: loop_body_def Let_def emit_def reset_actions_def engage_actions_def
        not_le[symmetric] split: option.splits)
  have d: "f64_sub (z0 s) (z2 s) \<noteq> NotANumber \<longrightarrow>
             f64_ge (f64_sub (z0 s) (z2 s)) (F64 0.006)
             = (\<not> f64_lt (f64_sub (z0 s) (z2 s)) (F64 0.006))"
    using f64_ge_iff_not_lt by blast
  from a b c d show ?thesis by blast
qed

theorem screw_iteration_protocol_witness:
  "loop_body \<lparr>init_joints = replicate 7 0, init_screw_pos = Some (F64 0.100),
              joints = (\<lambda>k. replicate 7 (if k = 0 then 0 else 7 * pi / 8)),
              screw_pos = feed_of [F64 0.098, F64 0.097]\<rparr>
     \<lparr>z0 = F64 0.100, z1 = F64 0.100, z2 = F64 0.100, iters = 0, trace = []\<rparr>
   = Continue \<lparr>z0 = F64 0.100, z1 = F64 0.100, z2 = F64 0.098, iters = 1,
        trace = [GetJointValues, CloseGripper, Sleep 1,
                 Go ((replicate 7 0)[6 := 7 * pi / 8]), Stop, WaitScrewPos]\<rparr>
   \<and> loop_body \<lparr>init_joints = replicate 7 0, init_screw_pos = Some (F64 0.100),
              joints = (\<lambda>k. replicate 7 (if k = 0 then 0 else 7 * pi / 8)),
              screw_pos = feed_of [F64 0.098, F64 0.097]\<rparr>
     \<lparr>z0 = F64 0.100, z1 = F64 0.100, z2 = F64 0.098, iters = 1, trace = []\<rparr>
   = Continue \<lparr>z0 = F64 0.100, z1 = F64 0.100, z2 = F64 0.097, iters = 2,
        trace = [GetJointValues, OpenGripper,
                 Go ((replicate 7 (7 * pi / 8))[6 := - 7 * pi / 8]), Stop, WaitScrewPos]\<rparr>
   \<and> screw_loop \<lparr>init_joints = replicate 7 0, init_screw_pos = Some (F64 0.100),
              joints = (\<lambda>k. replicate 7 (if k = 0 then 0 else 7 * pi / 8)),
              screw_pos = feed_of [F64 0.098, F64 0.097]\<rparr>
     \<lparr>z0 = F64 0.100, z1 = F64 0.100, z2 = F64 0.094, iters = 3, trace = []\<rparr>
   = Some (Inr \<lparr>z0 = F64 0.100, z1 = F64 0.100, z2 = F64 0.094, iters = 3, trace = []\<rparr>)"
proof -
  let ?e = "\<lparr>init_joints = replicate 7 0, init_screw_pos = Some (F64 0.100),
              joints = (\<lambda>k. replicate 7 (if k = 0 then 0 else 7 * pi / 8)),
              screw_pos = feed_of [F64 0.098, F64 0.097]\<rparr>"
  have a: "pi / 2 \<le> 7 * pi / 8" "\<not> pi / 2 \<le> 0" using pi_gt_zero by linarith+
  show ?thesis
    using screw_iteration_protocol[of ?e "\<lparr>z0 = F64 0.100, z1 = F64 0.100, z2 = F64 0.100, iters = 0, trace = []\<rparr>"]
      screw_iteration_protocol[of ?e "\<lparr>z0 = F64 0.100, z1 = F64 0.100, z2 = F64 0.098, iters = 1, trace = []\<rparr>"]
      screw_iteration_protocol[of ?e "\<lparr>z0 = F64 0.100, z1 = F64 0.100, z2 = F64 0.094, iters = 3, trace = []\<rparr>"]
      a
    by (simp add: feed_of_def Let_def)
qed

lemma synthetic_run:
  assumes "\<forall>k. 6 < length (js k)"
  shows "\<exists>s. run \<lparr>init_joints = j0, init_screw_pos = Some (F64 0.100), joints = js,
                  screw_pos = feed_of synthetic_heights\<rparr> 4 (screw_init j0 (F64 0.100)) = (Done, s)
             \<and> iters s = 4 \<and> z0 s = F64 0.100 \<and> z2 s = F64 0.093"
proof -
  have 4: "(4::nat) = Suc (Suc (Suc (Suc 0)))" by simp
  show ?thesis
    unfolding 4 using assms
    by (simp add: run_step run_exit screw_init_def feed_of_def synthetic_heights_def
        del: run.simps)
qed

lemma screw_eq_loop:
  "6 < length (init_joints e) \<Longrightarrow> init_screw_pos e = Some z \<Longrightarrow>
   screw e = screw_loop e (screw_init (init_joints e) z)"
  by (simp add: screw_def Let_def not_le[symmetric])

text \<open>
  Claim C5. With the first sample \<open>0.100\<close> and the samples \<open>0.100, 0.098, 0.096, 0.093\<close>
  in the loop, \<open>screw\<close> returns after exactly four passes through the body, with
  \<open>z0 - z2 = 0.007\<close>, whatever the joint vectors read (of seven entries) are.
\<close>
theorem screw_synthetic_sequence:
  assumes "6 < length j0" and "\<forall>k. 6 < length (js k)"
  shows "\<exists>s. screw \<lparr>init_joints = j0, init_screw_pos = Some (F64 0.100), joints = js,
                      screw_pos = feed_of synthetic_heights\<rparr> = Some (Inr s)
             \<and> iters s = 4 \<and> z0 s = F64 0.100 \<and> z2 s = F64 0.093
             \<and> f64_ge (f64_sub (z0 s) (z2 s)) (F64 0.006)"
proof -
  from synthetic_run[OF assms(2)] obtain s where
    r: "run \<lparr>init_joints = j0, init_screw_pos = Some (F64 0.100), joints = js,
                  screw_pos = feed_of synthetic_heights\<rparr> 4 (screw_init j0 (F64 0.100)) = (Done, s)"
    and s: "iters s = 4" "z0 s = F64 0.100" "z2 s = F64 0.093" by blast
  have "screw \<lparr>init_joints = j0, init_screw_pos = Some (F64 0.100), joints = js,
                screw_pos = feed_of synthetic_heights\<rparr>
        = screw_loop \<lparr>init_joints = j0, init_screw_pos = Some (F64 0.100), joints = js,
                screw_pos = feed_of synthetic_heights\<rparr> (screw_init j0 (F64 0.100))"
    using assms(1) by (simp add: screw_def Let_def not_le[symmetric])
  with run_Done_screw_loop[OF r] have
    "screw \<lparr>init_joints = j0, init_screw_pos = Some (F64 0.100), joints = js,
                screw_pos = feed_of synthetic_heights\<rparr> = Some (Inr s)" by simp
  moreover have "f64_ge (f64_sub (z0 s) (z2 s)) (F64 0.006)" using s by simp
  ultimately show ?thesis using s by blast
qed

theorem screw_synthetic_sequence_witness:
  "\<exists>s. screw \<lparr>init_joints = replicate 7 0, init_screw_pos = Some (F64 0.100),
                joints = (\<lambda>k. replicate 7 0),
                screw_pos = feed_of synthetic_heights\<rparr> = Some (Inr s)
       \<and> iters s = 4 \<and> z0 s = F64 0.100 \<and> z2 s = F64 0.093
             \<and> f64_ge (f64_sub (z0 s) (z2 s)) (F64 0.006)"
  using screw_synthetic_sequence[of "replicate 7 0" "\<lambda>k. replicate 7 0"] by simp

text \<open>
  Claim C6. However many passes have run, \<open>z0\<close> is the value it had at the loop's entry.
  The requests of the completed passes are, pass by pass, those of \<open>iteration_events\<close>:
  a pass contains the reset requests exactly when the wrist angle it read is at or above
  \<open>pi / 2\<close>, so that the resets are as many as the readings at or above the limit, and
  a reset commands the wrist to \<open>- 7 * pi / 8\<close>, which is below the limit.
\<close>
theorem screw_reference_and_resets:
  assumes "run e n s = (st, s')"
  shows "z0 s' = z0 s
     \<and> ((st = Running \<or> st = Done) \<longrightarrow>
          trace s' = trace s
             @ concat (map (\<lambda>k. iteration_events (joints e k)) [iters s..<iters s'])
          \<and> length (filter (\<lambda>ev. ev = OpenGripper) (drop (length (trace s)) (trace s')))
             = length (filter (\<lambda>k. pi / 2 \<le> joints e k ! 6) [iters s..<iters s']))
     \<and> (\<forall>js. iteration_events js =
            (if pi / 2 \<le> js ! 6
             then [GetJointValues, OpenGripper, Go (js[6 := - 7 * pi / 8]), Stop, WaitScrewPos]
             else [GetJointValues, CloseGripper, Sleep 1, Go (js[6 := 7 * pi / 8]), Stop,
                   WaitScrewPos]))
     \<and> - 7 * pi / 8 < pi / 2"
proof -
  have a: "z0 s' = z0 s" using run_invariant[OF assms] by simp
  have b: "(st = Running \<or> st = Done) \<longrightarrow>
          trace s' = trace s
             @ concat (map (\<lambda>k. iteration_events (joints e k)) [iters s..<iters s'])
          \<and> length (filter (\<lambda>ev. ev = OpenGripper) (drop (length (trace s)) (trace s')))
             = length (filter (\<lambda>k. pi / 2 \<le> joints e k ! 6) [iters s..<iters s'])"
  proof
    assume st: "st = Running \<or> st = Done"
    from run_trace[OF assms st] have t: "trace s' = trace s
             @ concat (map (\<lambda>k. iteration_events (joints e k)) [iters s..<iters s'])" .
    then have "drop (length (trace s)) (trace s')
        = concat (map (\<lambda>k. iteration_events (joints e k)) [iters s..<iters s'])" by simp
    with t count_open_gripper[of "joints e" "[iters s..<iters s']"] show
      "trace s' = trace s
             @ concat (map (\<lambda>k. iteration_events (joints e k)) [iters s..<iters s'])
          \<and> length (filter (\<lambda>ev. ev = OpenGripper) (drop (length (trace s)) (trace s')))
             = length (filter (\<lambda>k. pi / 2 \<le> joints e k ! 6) [iters s..<iters s'])"
      by simp
  qed
  have c: "\<forall>js. iteration_events js =
            (if pi / 2 \<le> js ! 6
             then [GetJointValues, OpenGripper, Go (js[6 := - 7 * pi / 8]), Stop, WaitScrewPos]
             else [GetJointValues, CloseGripper, Sleep 1, Go (js[6 := 7 * pi / 8]), Stop,
                   WaitScrewPos])"
    by (simp add: iteration_events_def reset_actions_def engage_actions_def)
  from a b c reset_target_below_limit show ?thesis by blast
qed

theorem screw_reference_and_resets_witness:
  "\<exists>s'. run \<lparr>init_joints = replicate 7 0, init_screw_pos = Some (F64 0.100),
               joints = (\<lambda>k. if k = 1 then replicate 7 (7 * pi / 8) else replicate 7 0),
               screw_pos = feed_of synthetic_heights\<rparr> 4 (screw_init (replicate 7 0) (F64 0.100))
           = (Done, s')
        \<and> z0 s' = F64 0.100
        \<and> length (filter (\<lambda>ev. ev = OpenGripper)
             (drop (length (trace (screw_init (replicate 7 0) (F64 0.100)))) (trace s'))) = 1"
proof -
  let ?js = "\<lambda>k::nat. if k = 1 then replicate 7 (7 * pi / 8) else replicate 7 (0::real)"
  let ?e = "\<lparr>init_joints = replicate 7 0, init_screw_pos = Some (F64 0.100), joints = ?js,
             screw_pos = feed_of synthetic_heights\<rparr>"
  let ?s0 = "screw_init (replicate 7 0) (F64 0.100)"
  have "\<forall>k. 6 < length (?js k)" by simp
  from synthetic_run[OF this, of "replicate 7 0"] obtain s' where
    r: "run ?e 4 ?s0 = (Done, s')" and i: "iters s' = 4" by blast
  have f: "filter (\<lambda>k. pi / 2 \<le> ?js k ! 6) [0..<4] = [1]"
    using engage_target_above_limit zero_below_limit
    by (simp add: upt_rec[of 0] upt_rec[of "Suc 0"] upt_rec[of 2] upt_rec[of 3] upt_rec[of 4])
  have i0: "iters ?s0 = 0" "z0 ?s0 = F64 0.100" by (simp_all add: screw_init_def)
  note T = screw_reference_and_resets[OF r]
  from T have "z0 s' = z0 ?s0" by blast
  with i0 have a: "z0 s' = F64 0.100" by simp
  from T have "length (filter (\<lambda>ev. ev = OpenGripper) (drop (length (trace ?s0)) (trace s')))
             = length (filter (\<lambda>k. pi / 2 \<le> joints ?e k ! 6) [iters ?s0..<iters s'])"
    by blast
  also have "\<dots> = length (filter (\<lambda>k. pi / 2 \<le> ?js k ! 6) [0..<4])"
    unfolding i i0 by simp
  also have "\<dots> = 1" unfolding f by simp
  finally have b: "length (filter (\<lambda>ev. ev = OpenGripper)
             (drop (length (trace ?s0)) (trace s'))) = 1" .
  from r a b show ?thesis by blast
qed

text \<open>
  Claim C10, with a first sample that is \<open>nan\<close> or infinite: \<open>z0 - z2\<close> is \<open>nan\<close> at
  the loop's entry, the test \<open>z0 - z2 < 0.006\<close> is false and \<open>screw\<close> returns without a
  single pass through the loop body.
\<close>
theorem screw_skips_loop_on_nan_entry:
  "screw \<lparr>init_joints = replicate 7 0, init_screw_pos = Some NotANumber,
          joints = (\<lambda>k. replicate 7 0), screw_pos = (\<lambda>k. Some (F64 0.100))\<rparr>
     = Some (Inr (screw_init (replicate 7 0) NotANumber))
   \<and> iters (screw_init (replicate 7 0) NotANumber) = 0
   \<and> screw \<lparr>init_joints = replicate 7 0, init_screw_pos = Some PlusInf,
          joints = (\<lambda>k. replicate 7 0), screw_pos = (\<lambda>k. Some (F64 0.100))\<rparr>
     = Some (Inr (screw_init (replicate 7 0) PlusInf))
   \<and> iters (screw_init (replicate 7 0) PlusInf) = 0"
proof -
  have n: "\<not> f64_lt (f64_sub (z0 (screw_init j NotANumber)) (z2 (screw_init j NotANumber)))
               (F64 0.006)" for j
    by (simp add: screw_init_def)
  have p: "\<not> f64_lt (f64_sub (z0 (screw_init j PlusInf)) (z2 (screw_init j PlusInf)))
               (F64 0.006)" for j
    by (simp add: screw_init_def)
  have i: "iters (screw_init j z) = 0" for j z by (simp add: screw_init_def)
  from screw_loop_exit[OF n] screw_loop_exit[OF p] i show ?thesis
    by (simp add: screw_def Let_def)
qed

text \<open>
  Claim C10, as the code has it. When the first sample is finite and \<open>screw\<close> returns,
  the loop body has run at least once: at the loop's entry \<open>z0 - z2\<close> is \<open>0\<close>, the loop
  is not left there, and the trace of the final state holds the requests of at least one
  pass.
\<close>
theorem screw_enters_loop_body:
  assumes "screw e = Some (Inr s)" and "init_screw_pos e = Some (F64 a)"
  shows "1 \<le> iters s
     \<and> f64_sub (z0 (screw_init (init_joints e) (F64 a))) (z2 (screw_init (init_joints e) (F64 a)))
         = F64 0
     \<and> run e 0 (screw_init (init_joints e) (F64 a))
         = (Running, screw_init (init_joints e) (F64 a))
     \<and> trace s = trace (screw_init (init_joints e) (F64 a))
                @ concat (map (\<lambda>k. iteration_events (joints e k)) [0..<iters s])"
proof -
  from assms(1) have len: "6 < length (init_joints e)"
    by (auto simp add: screw_def Let_def split: if_splits)
  let ?s0 = "screw_init (init_joints e) (F64 a)"
  have c: "f64_sub (z0 ?s0) (z2 ?s0) = F64 0" and i0: "iters ?s0 = 0"
    by (simp_all add: screw_init_def)
  then have lt: "f64_lt (f64_sub (z0 ?s0) (z2 ?s0)) (F64 0.006)" by simp
  from assms(1) screw_eq_loop[OF len assms(2)] have l: "screw_loop e ?s0 = Some (Inr s)" by simp
  from screw_loop_Done_iters[OF l lt] i0 have one: "1 \<le> iters s" by simp
  from screw_loop_returns_run[OF l] obtain n where r: "run e n ?s0 = (Done, s)" by auto
  from run_trace[OF r] i0 have t: "trace s = trace ?s0
                @ concat (map (\<lambda>k. iteration_events (joints e k)) [0..<iters s])" by simp
  have r0: "run e 0 ?s0 = (Running, ?s0)" using lt by simp
  from one c r0 t show ?thesis by blast
qed

theorem screw_enters_loop_body_witness:
  "\<exists>s. screw \<lparr>init_joints = replicate 7 0, init_screw_pos = Some (F64 0.100),
                joints = (\<lambda>k. replicate 7 0), screw_pos = feed_of [F64 0.09]\<rparr> = Some (Inr s)
       \<and> 1 \<le> iters s"
proof -
  let ?e = "\<lparr>init_joints = replicate 7 0, init_screw_pos = Some (F64 0.100),
                joints = (\<lambda>k. replicate 7 0), screw_pos = feed_of [F64 0.09]\<rparr>"
  have "\<exists>s. run ?e (Suc 0) (screw_init (replicate 7 0) (F64 0.100)) = (Done, s)"
    by (simp add: run_step run_exit screw_init_def feed_of_def del: run.simps)
  then obtain s where "run ?e (Suc 0) (screw_init (replicate 7 0) (F64 0.100)) = (Done, s)" by blast
  from run_Done_screw_loop[OF this] have l: "screw ?e = Some (Inr s)"
    by (simp add: screw_def Let_def)
  have "init_screw_pos ?e = Some (F64 0.100)" by simp
  from screw_enters_loop_body[OF l this] l show ?thesis by blast
qed

lemma nan_feed_run:
  "run \<lparr>init_joints = replicate 7 0, init_screw_pos = Some (F64 0.100),
         joints = (\<lambda>k. replicate 7 0), screw_pos = (\<lambda>k. Some NotANumber)\<rparr> (Suc 0)
       (screw_init (replicate 7 0) (F64 0.100))
   = (Done, (screw_init (replicate 7 0) (F64 0.100))
        \<lparr>trace := trace (screw_init (replicate 7 0) (F64 0.100))
                    @ iteration_events (replicate 7 0),
         z2 := NotANumber, iters := Suc 0\<rparr>)"
  by (simp add: run_step run_exit screw_init_def del: run.simps)

text \<open>
  Claim C8, with a feed that delivers \<open>nan\<close> for ever: no sample \<open>z\<close> satisfies
  \<open>z0 - z >= 0.006\<close>, and yet \<open>screw\<close> returns, after one pass.
\<close>
theorem screw_returns_on_nan_feed:
  "\<not> f64_ge (f64_sub (F64 0.100) NotANumber) (F64 0.006)
   \<and> (\<exists>s. screw \<lparr>init_joints = replicate 7 0, init_screw_pos = Some (F64 0.100),
                   joints = (\<lambda>k. replicate 7 0), screw_pos = (\<lambda>k. Some NotANumber)\<rparr>
             = Some (Inr s)
           \<and> iters s = 1)"
proof -
  let ?e = "\<lparr>init_joints = replicate 7 0, init_screw_pos = Some (F64 0.100),
                   joints = (\<lambda>k. replicate 7 0), screw_pos = (\<lambda>k. Some NotANumber)\<rparr>"
  let ?s = "(screw_init (replicate 7 0) (F64 0.100))
        \<lparr>trace := trace (screw_init (replicate 7 0) (F64 0.100))
                    @ iteration_events (replicate 7 0),
         z2 := NotANumber, iters := Suc 0\<rparr>"
  from run_Done_screw_loop[OF nan_feed_run] have "screw ?e = Some (Inr ?s)"
    by (simp add: screw_def Let_def)
  moreover have "iters ?s = 1" by simp
  ultimately have "\<exists>s. screw ?e = Some (Inr s) \<and> iters s = 1" by blast
  then show ?thesis by simp
qed

lemma not_ge_lt:
  assumes "z \<noteq> NotANumber" and "\<not> f64_ge (f64_sub (F64 a) z) (F64 d)"
  shows "f64_lt (f64_sub (F64 a) z) (F64 d)"
  using assms by (cases z) auto

text \<open>
  Claim C8, as the code has it. When the first sample is finite, no sample of the feed
  is \<open>nan\<close> and no sample is \<open>0.006\<close> or more below the first one, \<open>screw\<close> never
  returns. No number of passes ends the loop: with a feed that goes on for ever every
  pass completes and the loop is still running after \<open>n\<close> passes, for every \<open>n\<close>; with a
  feed that stops, the loop is blocked in the wait from then on.
\<close>
theorem screw_never_returns:
  assumes "6 < length (init_joints e)" and "\<forall>k. 6 < length (joints e k)"
    and "init_screw_pos e = Some (F64 a)"
    and "\<forall>k z. screw_pos e k = Some z \<longrightarrow>
           z \<noteq> NotANumber \<and> \<not> f64_ge (f64_sub (F64 a) z) (F64 0.006)"
  shows "screw e = None
     \<and> (\<forall>n. fst (run e n (screw_init (init_joints e) (F64 a))) = Running
            \<or> fst (run e n (screw_init (init_joints e) (F64 a))) = Stalled)
     \<and> ((\<forall>k. screw_pos e k \<noteq> None) \<longrightarrow>
          (\<forall>n. fst (run e n (screw_init (init_joints e) (F64 a))) = Running
              \<and> iters (snd (run e n (screw_init (init_joints e) (F64 a)))) = n))
     \<and> (\<forall>K. screw_pos e K = None \<and> (\<forall>k<K. screw_pos e k \<noteq> None) \<longrightarrow>
          (\<forall>n>K. fst (run e n (screw_init (init_joints e) (F64 a))) = Stalled))"
proof -
  let ?s0 = "screw_init (init_joints e) (F64 a)"
  have z: "z0 ?s0 = F64 a" and i0: "iters ?s0 = 0"
    and c: "f64_lt (f64_sub (z0 ?s0) (z2 ?s0)) (F64 0.006)"
    by (simp_all add: screw_init_def)
  from assms(4) not_ge_lt have
    "\<forall>k z. screw_pos e k = Some z \<longrightarrow> f64_lt (f64_sub (F64 a) z) (F64 0.006)"
    by blast
  with z have Z: "\<forall>k z. screw_pos e k = Some z \<longrightarrow> f64_lt (f64_sub (z0 ?s0) z) (F64 0.006)"
    by simp
  have a: "screw e = None"
    using screw_loop_never_returns[OF assms(2) Z c] screw_eq_loop[OF assms(1) assms(3)] by simp
  have b: "\<forall>n. fst (run e n ?s0) = Running \<or> fst (run e n ?s0) = Stalled"
    using run_never_done[OF assms(2) Z c] by blast
  have d: "(\<forall>k. screw_pos e k \<noteq> None) \<longrightarrow>
          (\<forall>n. fst (run e n ?s0) = Running \<and> iters (snd (run e n ?s0)) = n)"
  proof (intro impI allI)
    fix n
    assume "\<forall>k. screw_pos e k \<noteq> None"
    with Z have "\<forall>k. \<exists>z. screw_pos e k = Some z \<and> f64_lt (f64_sub (z0 ?s0) z) (F64 0.006)"
      by (metis not_Some_eq)
    from run_all_samples[OF assms(2) this c, of n] i0
    show "fst (run e n ?s0) = Running \<and> iters (snd (run e n ?s0)) = n" by simp
  qed
  have f: "\<forall>K. screw_pos e K = None \<and> (\<forall>k<K. screw_pos e k \<noteq> None) \<longrightarrow>
          (\<forall>n>K. fst (run e n ?s0) = Stalled)"
  proof (intro impI allI)
    fix K n
    assume h: "screw_pos e K = None \<and> (\<forall>k<K. screw_pos e k \<noteq> None)" and n: "K < n"
    from h have N: "screw_pos e K = None" by simp
    have 1: "iters ?s0 \<le> K" using i0 by simp
    have 2: "\<forall>k. iters ?s0 \<le> k \<and> k < K \<longrightarrow> screw_pos e k \<noteq> None" using h by simp
    have 3: "K - iters ?s0 < n" using n i0 by simp
    from run_stalled[OF assms(2) N c Z 1 2 3] show "fst (run e n ?s0) = Stalled" .
  qed
  from a b d f show ?thesis by blast
qed

theorem screw_never_returns_witness:
  "screw \<lparr>init_joints = replicate 7 0, init_screw_pos = Some (F64 0.100),
          joints = (\<lambda>k. replicate 7 0), screw_pos = (\<lambda>k. Some (F64 0.099))\<rparr> = None
   \<and> screw \<lparr>init_joints = replicate 7 0, init_screw_pos = Some (F64 0.100),
          joints = (\<lambda>k. replicate 7 0), screw_pos = feed_of [F64 0.100, F64 0.098]\<rparr> = None
   \<and> fst (run \<lparr>init_joints = replicate 7 0, init_screw_pos = Some (F64 0.100),
          joints = (\<lambda>k. replicate 7 0), screw_pos = feed_of [F64 0.100, F64 0.098]\<rparr> 3
          (screw_init (replicate 7 0) (F64 0.100))) = Stalled"
proof -
  let ?e1 = "\<lparr>init_joints = replicate 7 0, init_screw_pos = Some (F64 0.100),
          joints = (\<lambda>k. replicate 7 0), screw_pos = (\<lambda>k. Some (F64 0.099))\<rparr>"
  let ?e2 = "\<lparr>init_joints = replicate 7 0, init_screw_pos = Some (F64 0.100),
          joints = (\<lambda>k. replicate 7 0), screw_pos = feed_of [F64 0.100, F64 0.098]\<rparr>"
  have 1: "screw ?e1 = None"
    using screw_never_returns[of ?e1 "0.100"] by simp
  have h: "\<forall>k z. screw_pos ?e2 k = Some z \<longrightarrow>
             z \<noteq> NotANumber \<and> \<not> f64_ge (f64_sub (F64 0.100) z) (F64 0.006)"
    by (auto simp add: feed_of_def less_Suc_eq numeral_2_eq_2 split: if_splits)
  have n: "screw_pos ?e2 2 = None \<and> (\<forall>k<2. screw_pos ?e2 k \<noteq> None)"
    by (simp add: feed_of_def)
  have T: "screw ?e2 = None \<and> (\<forall>K. screw_pos ?e2 K = None \<and> (\<forall>k<K. screw_pos ?e2 k \<noteq> None) \<longrightarrow>
          (\<forall>n>K. fst (run ?e2 n (screw_init (init_joints ?e2) (F64 0.100))) = Stalled))"
    using screw_never_returns[of ?e2 "0.100", OF _ _ _ h] by simp
  from T have 2: "screw ?e2 = None" by blast
  from T n have "\<forall>n>2. fst (run ?e2 n (screw_init (init_joints ?e2) (F64 0.100))) = Stalled"
    by blast
  then have 3: "fst (run ?e2 3 (screw_init (replicate 7 0) (F64 0.100))) = Stalled" by simp
  from 1 2 3 show ?thesis by blast
qed

subsection \<open>The variable \<open>z1\<close>\<close>

lemma loop_body_forget:
  "loop_body_no_z1 e (forget_z1 s) = map_body_result forget_z1 (loop_body e s)"
  by (simp add: loop_body_no_z1_def loop_body_def Let_def forget_z1_def emit_def emit_no_z1_def
      split: option.splits)

lemma run_forget: "run_no_z1 e n (forget_z1 s) = map_prod id forget_z1 (run e n s)"
proof (induction n arbitrary: s)
  case 0
  show ?case by (simp add: forget_z1_def)
next
  case (Suc n)
  have c: "f64_sub (z0n (forget_z1 s)) (z2n (forget_z1 s)) = f64_sub (z0 s) (z2 s)" by (simp add: forget_z1_def)
  show ?case
    by (cases "loop_body e s") (simp_all add: c loop_body_forget Suc.IH)
qed

lemma loop_body_z1:
  "loop_body e (s\<lparr>z1 := v\<rparr>) = map_body_result (\<lambda>t. t\<lparr>z1 := v\<rparr>) (loop_body e s)"
  by (simp add: loop_body_def Let_def emit_def split: option.splits)

lemma run_z1: "run e n (s\<lparr>z1 := v\<rparr>) = map_prod id (\<lambda>t. t\<lparr>z1 := v\<rparr>) (run e n s)"
proof (induction n arbitrary: s)
  case 0
  show ?case by simp
next
  case (Suc n)
  show ?case
    by (cases "loop_body e s") (simp_all add: loop_body_z1 Suc.IH)
qed

lemma screw_loop_forget_1:
  assumes "screw_loop e s = Some r"
  shows "screw_loop_no_z1 e (forget_z1 s) = Some (map_sum id forget_z1 r)"
  using assms
proof (induction rule: screw_loop.raw_induct[rotated 1, consumes 1, case_names step])
  case (step f e s r)
  have c: "f64_sub (z0n (forget_z1 s)) (z2n (forget_z1 s)) = f64_sub (z0 s) (z2 s)" by (simp add: forget_z1_def)
  show ?case
  proof (cases "f64_lt (f64_sub (z0 s) (z2 s)) (F64 0.006)")
    case False
    with step(2) c show ?thesis by (subst screw_loop_no_z1.simps) auto
  next
    case True
    show ?thesis
    proof (cases "loop_body e s")
      case (Continue s1)
      with True step(2) have "f e s1 = Some r" by simp
      from step(1)[OF this] True c Continue show ?thesis
        by (subst screw_loop_no_z1.simps) (simp add: loop_body_forget id_def)
    next
      case (Raise err s1)
      with True step(2) c show ?thesis
        by (subst screw_loop_no_z1.simps) (auto simp add: loop_body_forget)
    next
      case (Block s1)
      with True step(2) show ?thesis by simp
    qed
  qed
qed

lemma screw_loop_forget_2:
  assumes "screw_loop_no_z1 e t = Some r'"
  shows "\<forall>s. forget_z1 s = t \<longrightarrow> (\<exists>r. screw_loop e s = Some r)"
  using assms
proof (induction rule: screw_loop_no_z1.raw_induct[rotated 1, consumes 1, case_names step])
  case (step f e t r')
  show ?case
  proof (intro allI impI)
    fix s
    assume t: "forget_z1 s = t"
    then have c: "f64_sub (z0n t) (z2n t) = f64_sub (z0 s) (z2 s)" by (auto simp add: forget_z1_def)
    show "\<exists>r. screw_loop e s = Some r"
    proof (cases "f64_lt (f64_sub (z0 s) (z2 s)) (F64 0.006)")
      case False
      then show ?thesis by (subst screw_loop.simps) simp
    next
      case True
      show ?thesis
      proof (cases "loop_body e s")
        case (Continue s1)
        with loop_body_forget[of e s] t have "loop_body_no_z1 e t = Continue (forget_z1 s1)"
          by simp
        with True step(2) c have "f e (forget_z1 s1) = Some r'" by simp
        from step(1)[OF this] have "\<exists>r. screw_loop e s1 = Some r" by blast
        with True Continue show ?thesis by (subst screw_loop.simps) simp
      next
        case (Raise err s1)
        with True show ?thesis by (subst screw_loop.simps) simp
      next
        case (Block s1)
        with loop_body_forget[of e s] t have "loop_body_no_z1 e t = Block (forget_z1 s1)"
          by simp
        with True step(2) c show ?thesis by simp
      qed
    qed
  qed
qed

lemma screw_loop_forget:
  "screw_loop_no_z1 e (forget_z1 s) = map_option (map_sum id forget_z1) (screw_loop e s)"
proof (cases "screw_loop e s")
  case (Some r)
  with screw_loop_forget_1[OF Some] show ?thesis by simp
next
  case None
  have "screw_loop_no_z1 e (forget_z1 s) = None"
  proof (cases "screw_loop_no_z1 e (forget_z1 s)")
    case None
    then show ?thesis .
  next
    case (Some r')
    from screw_loop_forget_2[OF Some] None show ?thesis by auto
  qed
  with None show ?thesis by simp
qed

text \<open>
  Claim C9. The controller without \<open>z1\<close> behaves as \<open>screw\<close> does: the same result
  (returning, raising or never returning) with the same final \<open>z0\<close>, \<open>z2\<close>, pass count
  and trace, and the same status and trace after any number of passes. The loop never
  assigns \<open>z1\<close>, and its value has no influence on the run.
\<close>
theorem z1_is_dead:
  "screw_no_z1 e = map_option (map_sum id forget_z1) (screw e)
   \<and> run_no_z1 e n (forget_z1 s) = map_prod id forget_z1 (run e n s)
   \<and> z1 (snd (run e n s)) = z1 s
   \<and> run e n (s\<lparr>z1 := v\<rparr>) = map_prod id (\<lambda>t. t\<lparr>z1 := v\<rparr>) (run e n s)"
proof -
  have i: "forget_z1 (screw_init j z) = screw_init_no_z1 j z" for j z
    by (simp add: forget_z1_def screw_init_def screw_init_no_z1_def)
  have a: "screw_no_z1 e = map_option (map_sum id forget_z1) (screw e)"
    by (simp add: screw_no_z1_def screw_def Let_def i[symmetric] screw_loop_forget
        split: option.splits)
  have b: "z1 (snd (run e n s)) = z1 s"
    using run_invariant[of e n s "fst (run e n s)" "snd (run e n s)"] by simp
  from a b run_forget run_z1 show ?thesis by blast
qed

section \<open>Properties of the pose synthesis\<close>

subsection \<open>Evaluation at some inputs, and the degenerate branch\<close>

lemmas fl_ops = fadd_def fsub_def fmul_def

lemma sensed_z_axis_flipped: "sensed_z_axis (1, 0, 0, 0) = (0, 0, - 1)"
  by (simp add: sensed_z_axis_def quaternion_matrix_def EPS_def Let_def of_rows_def)

lemma sensed_z_axis_side: "sensed_z_axis (0, 1, 0, 1) = (1, 0, 0)"
  by (simp add: sensed_z_axis_def quaternion_matrix_def EPS_def Let_def of_rows_def)

lemma sensed_z_axis_identity: "sensed_z_axis (0, 0, 0, 1) = (0, 0, 1)"
  by (simp add: sensed_z_axis_def quaternion_matrix_def EPS_def Let_def of_rows_def)

lemma sensed_z_axis_yaw: "sensed_z_axis (0, 0, 1, 0) = (0, 0, 1)"
  by (simp add: sensed_z_axis_def quaternion_matrix_def EPS_def Let_def of_rows_def)

lemma isclose_values: "\<not> isclose (- 1) 1" "\<not> isclose 0 1" "isclose 1 1"
  by (simp_all add: isclose_def)

lemma isclose_one: "isclose a 1 \<longleftrightarrow> \<bar>a - 1\<bar> \<le> 1001 / 10 ^ 8"
  by (simp add: isclose_def)

text \<open>
  Claim C1. When the third component of the sensed z axis is within the tolerance of
  \<open>numpy.isclose\<close> of 1, the frame builder returns the fixed basis
  \<open>z = [1, 0, 0]\<close>, \<open>x = [0, 1, 0]\<close>, \<open>y = [0, 0, 1]\<close>, the offsets \<open>- 0.0\<close> and
  \<open>0.07\<close> and the fixed quaternions of the branch, whatever the rest of the input is.
  The tolerance is \<open>1e-8 + 1e-5\<close>.
\<close>
theorem frame_builder_degenerate:
  assumes "sensed_z_axis q = (zx, zy, zz)" and "isclose zz 1"
  shows "frame_builder q =
           \<lparr>z_axis = (Fin 1, Fin 0, Fin 0),
            x_axis = (Fin 0, Fin 1, Fin 0),
            y_axis = (Fin 0, Fin 0, Fin 1),
            q2 = quaternion_from_euler pi 0 (- tau / 8),
            pos_offset_fixture_x = - 0,
            pos_offset_fixture_z = 0.07,
            q_fixture = quaternion_from_euler pi 0 (tau / 8)\<rparr>
         \<and> quaternion_from_euler pi 0 (tau / 8) = (cos (pi / 8), sin (pi / 8), 0, 0)
         \<and> (isclose zz 1 \<longleftrightarrow> \<bar>zz - 1\<bar> \<le> 1001 / 10 ^ 8)"
  using assms
  by (simp add: frame_builder_def quaternion_from_euler_def tau_def Let_def isclose_one)

theorem frame_builder_degenerate_witness:
  "frame_builder (0, 0, 0, 1) =
           \<lparr>z_axis = (Fin 1, Fin 0, Fin 0),
            x_axis = (Fin 0, Fin 1, Fin 0),
            y_axis = (Fin 0, Fin 0, Fin 1),
            q2 = quaternion_from_euler pi 0 (- tau / 8),
            pos_offset_fixture_x = - 0,
            pos_offset_fixture_z = 0.07,
            q_fixture = quaternion_from_euler pi 0 (tau / 8)\<rparr>
   \<and> frame_builder (0, 0, 1, 0) = frame_builder (0, 0, 0, 1)"
  using frame_builder_degenerate[OF sensed_z_axis_identity isclose_values(3)]
    frame_builder_degenerate[OF sensed_z_axis_yaw isclose_values(3)]
  by simp

lemma frame_builder_flipped:
  "frame_builder (1, 0, 0, 0) =
     \<lparr>z_axis = (Fin 0, Fin 0, Fin (- 1)), x_axis = (NaN, NaN, NaN), y_axis = (NaN, NaN, NaN),
      q2 = quaternion_from_euler 0 0 (- pi / 4),
      pos_offset_fixture_x = - 0.1027, pos_offset_fixture_z = 0,
      q_fixture = quaternion_from_euler (- tau / 4) (- tau / 8) (- tau / 4)\<rparr>"
  by (simp add: frame_builder_def sensed_z_axis_flipped isclose_values cross_def fl_ops Let_def
      div_by_norm_def norm3_def)

lemma frame_builder_side:
  "frame_builder (0, 1, 0, 1) =
     \<lparr>z_axis = (Fin 1, Fin 0, Fin 0), x_axis = (Fin 0, Fin (- 1), Fin 0),
      y_axis = (Fin 0, Fin 0, Fin (- 1)),
      q2 = quaternion_from_euler 0 0 (- pi / 4),
      pos_offset_fixture_x = - 0.1027, pos_offset_fixture_z = 0,
      q_fixture = quaternion_from_euler (- tau / 4) (- tau / 8) (- tau / 4)\<rparr>"
  by (simp add: frame_builder_def sensed_z_axis_side isclose_values cross_def fl_ops Let_def
      div_by_norm_def norm3_def)

lemma grasp_orientation_flipped: "grasp_orientation (1, 0, 0, 0) = Inr (NaN, NaN, NaN, NaN)"
  by (simp add: grasp_orientation_def frame_builder_flipped Let_def fl_ops
      frame_matrix_def transposed_def of_rows_def quaternion_from_matrix_def trace4_def
      quaternion_multiply_def quaternion_from_euler_def)

lemma quaternion_from_matrix_side:
  "quaternion_from_matrix (frame_matrix (frame_builder (0, 1, 0, 1)))
     = Inr (Fin 1, Fin 0, Fin 0, Fin 0)"
  by (simp add: frame_builder_side Let_def fl_ops
      frame_matrix_def transposed_def of_rows_def quaternion_from_matrix_def trace4_def)

lemma q2_general: "quaternion_from_euler 0 0 (- pi / 4) = (0, 0, - sin (pi / 8), cos (pi / 8))"
  by (simp add: quaternion_from_euler_def Let_def)

lemma sin_pi_8_pos: "0 < sin (pi / 8)"
  by (rule sin_gt_zero) (use pi_gt_zero in linarith)+

lemma cos_pi_8_pos: "0 < cos (pi / 8)"
  by (rule cos_gt_zero_pi) (use pi_gt_zero in linarith)+

subsection \<open>No error is raised\<close>

lemma py_root_returns:
  assumes "1 \<le> v"
  shows "\<exists>c. (case py_sqrt (fmul (Fin v) (Fin 1)) of Inl err \<Rightarrow> Inl err
              | Inr r \<Rightarrow> (case py_div 0.5 r of Inl err \<Rightarrow> Inl err | Inr c \<Rightarrow> Inr (scale c q)))
             = Inr c"
proof -
  from assms have "0 < sqrt v" by simp
  with assms have "(case py_sqrt (fmul (Fin v) (Fin 1)) of Inl err \<Rightarrow> Inl err
              | Inr r \<Rightarrow> (case py_div 0.5 r of Inl err \<Rightarrow> Inl err | Inr c \<Rightarrow> Inr (scale c q)))
             = Inr (scale (Fin (0.5 / sqrt v)) q)"
    by (simp add: fmul_def)
  then show ?thesis by blast
qed

lemma py_root_nan:
  "(case py_sqrt (fmul NaN (Fin 1)) of Inl err \<Rightarrow> Inl err
              | Inr r \<Rightarrow> (case py_div 0.5 r of Inl err \<Rightarrow> Inl err | Inr c \<Rightarrow> Inr (scale c q)))
             = Inr (scale NaN q)"
  by (simp add: fmul_def)

lemma quaternion_from_matrix_returns:
  assumes "M 3 3 = Fin 1"
  shows "\<exists>r. quaternion_from_matrix M = Inr r"
proof (cases "\<exists>a b c. M 0 0 = Fin a \<and> M 1 1 = Fin b \<and> M 2 2 = Fin c")
  case True
  then obtain a b c where d: "M 0 0 = Fin a" "M 1 1 = Fin b" "M 2 2 = Fin c" by blast
  show ?thesis
  proof (cases "a + b + c + 1 > 1")
    case True
    then have "1 \<le> a + b + c + 1" by simp
    from py_root_returns[OF this] True assms d show ?thesis
      by (simp add: quaternion_from_matrix_def trace4_def fadd_def fsub_def Let_def)
  next
    case False
    note F = False
    show ?thesis
    proof (cases "b > a")
      case True
      note T1 = True
      show ?thesis
      proof (cases "c > b")
        case True
        with F T1 have "1 \<le> c - (a + b) + 1" by simp
        from py_root_returns[OF this] True F T1 assms d show ?thesis
          by (simp add: quaternion_from_matrix_def trace4_def fadd_def fsub_def Let_def)
      next
        case False
        with F T1 have "1 \<le> b - (c + a) + 1" by simp
        from py_root_returns[OF this] False F T1 assms d show ?thesis
          by (simp add: quaternion_from_matrix_def trace4_def fadd_def fsub_def Let_def)
      qed
    next
      case False
      note T1 = False
      show ?thesis
      proof (cases "c > a")
        case True
        with F T1 have "1 \<le> c - (a + b) + 1" by simp
        from py_root_returns[OF this] True F T1 assms d show ?thesis
          by (simp add: quaternion_from_matrix_def trace4_def fadd_def fsub_def Let_def)
      next
        case False
        with F T1 have "1 \<le> a - (b + c) + 1" by simp
        from py_root_returns[OF this] False F T1 assms d show ?thesis
          by (simp add: quaternion_from_matrix_def trace4_def fadd_def fsub_def Let_def)
      qed
    qed
  qed
next
  case False
  then have n: "M 0 0 = NaN \<or> M 1 1 = NaN \<or> M 2 2 = NaN"
    by (metis fl.exhaust)
  then have t: "trace4 M = NaN"
    by (cases "M 0 0"; cases "M 1 1"; cases "M 2 2") (auto simp add: trace4_def fadd_def)
  have s: "fadd (fsub (M i i) (fadd (M j j) (M k k))) (Fin 1) = NaN"
    if "{i, j, k} = {0, 1, 2}" for i j k :: nat
  proof -
    from that n have "M i i = NaN \<or> M j j = NaN \<or> M k k = NaN"
      by (metis insertCI insertE singletonD)
    then show ?thesis
      by (cases "M i i"; cases "M j j"; cases "M k k") (auto simp add: fadd_def fsub_def)
  qed
  have s1: "fadd (fsub (M 0 0) (fadd (M 1 1) (M 2 2))) (Fin 1) = NaN"
    by (rule s) auto
  have s2: "fadd (fsub (M 1 1) (fadd (M 2 2) (M 0 0))) (Fin 1) = NaN"
    by (rule s) auto
  have s3: "fadd (fsub (M 2 2) (fadd (M 0 0) (M 1 1))) (Fin 1) = NaN"
    by (rule s) auto
  show ?thesis
    using assms t s1 s2 s3
    by (simp add: quaternion_from_matrix_def Let_def fmul_def)
qed

lemma frame_matrix_corner: "frame_matrix f 3 3 = Fin 1"
  by (simp add: frame_matrix_def transposed_def of_rows_def)

lemma grasp_orientation_returns: "\<exists>r. grasp_orientation q = Inr r"
proof -
  from quaternion_from_matrix_returns[of "frame_matrix (frame_builder q)", OF frame_matrix_corner]
  obtain r where
    "quaternion_from_matrix (frame_matrix (frame_builder q)) = Inr r" by blast
  then have "grasp_orientation q
      = Inr (quaternion_multiply (fquat_of (q2 (frame_builder q))) r)"
    by (simp add: grasp_orientation_def Let_def)
  then show ?thesis by blast
qed

text \<open>
  Claim C2, at the quaternion \<open>(1, 0, 0, 0)\<close>: the sensed z axis is \<open>[0, 0, - 1]\<close>, the
  test against 1 fails, so that the general branch is entered; the cross product with the
  up axis is the zero vector; its division by its norm gives \<open>nan\<close> in every entry, and
  the grasp orientation is returned as a value, with \<open>nan\<close> in every entry. Nothing is
  raised.
\<close>
theorem general_branch_silent_when_antiparallel:
  "sensed_z_axis (1, 0, 0, 0) = (0, 0, - 1)
   \<and> \<not> isclose (- 1) 1
   \<and> cross (Fin 0, Fin 0, Fin (- 1)) (Fin 0, Fin 0, Fin 1) = (Fin 0, Fin 0, Fin 0)
   \<and> x_axis (frame_builder (1, 0, 0, 0)) = (NaN, NaN, NaN)
   \<and> y_axis (frame_builder (1, 0, 0, 0)) = (NaN, NaN, NaN)
   \<and> grasp_orientation (1, 0, 0, 0) = Inr (NaN, NaN, NaN, NaN)"
  by (simp add: sensed_z_axis_flipped isclose_values frame_builder_flipped
      grasp_orientation_flipped cross_def fl_ops)


text \<open>
  Claim C2, as the code has it. Whenever the general branch is entered, the grasp
  orientation is returned as a value: no error is raised. The axes are the sensed axis,
  its cross product with the up axis divided by its norm, and the cross product of the
  two divided by its norm, with no test of either norm.
\<close>
theorem general_branch_unguarded:
  assumes "sensed_z_axis q = (zx, zy, zz)" and "\<not> isclose zz 1"
  shows "(\<exists>r. grasp_orientation q = Inr r)
     \<and> z_axis (frame_builder q) = (Fin zx, Fin zy, Fin zz)
     \<and> x_axis (frame_builder q) = div_by_norm (cross (Fin zx, Fin zy, Fin zz) (Fin 0, Fin 0, Fin 1))
     \<and> y_axis (frame_builder q) = div_by_norm (cross (Fin zx, Fin zy, Fin zz) (x_axis (frame_builder q)))"
  using assms grasp_orientation_returns[of q]
  by (simp add: frame_builder_def Let_def)

theorem general_branch_unguarded_witness:
  "(\<exists>r. grasp_orientation (0, 1, 0, 1) = Inr r)
     \<and> z_axis (frame_builder (0, 1, 0, 1)) = (Fin 1, Fin 0, Fin 0)
     \<and> x_axis (frame_builder (0, 1, 0, 1)) = (Fin 0, Fin (- 1), Fin 0)
     \<and> y_axis (frame_builder (0, 1, 0, 1)) = (Fin 0, Fin 0, Fin (- 1))"
  using general_branch_unguarded[OF sensed_z_axis_side isclose_values(2)]
  by (simp add: cross_def fl_ops div_by_norm_def norm3_def)


subsection \<open>Orthonormal frames\<close>

lemma sensed_z_axis_eq:
  assumes "EPS \<le> x * x + y * y + z * z + w * w"
  shows "sensed_z_axis (x, y, z, w) =
     (let c = sqrt (2 / (x * x + y * y + z * z + w * w))
      in ((x * c) * (z * c) + (y * c) * (w * c),
          (y * c) * (z * c) - (x * c) * (w * c),
          1 - (x * c) * (x * c) - (y * c) * (y * c)))"
  using assms
  by (simp add: sensed_z_axis_def quaternion_matrix_def Let_def of_rows_def not_less[symmetric]
      del: real_sqrt_divide real_sqrt_mult)

lemma sensed_z_axis_unit:
  assumes nq: "EPS \<le> x * x + y * y + z * z + w * w"
    and s: "sensed_z_axis (x, y, z, w) = (zx, zy, zz)"
  shows "zx * zx + zy * zy + zz * zz = 1"
proof -
  define n where "n = x * x + y * y + z * z + w * w"
  define k where "k = 2 / n"
  define c where "c = sqrt (2 / n)"
  have "0 < EPS" by (simp add: EPS_def)
  with nq have np: "0 < n" by (simp add: n_def)
  then have kn: "k * n = 2" by (simp add: k_def)
  have cc: "c * c = k" using np unfolding c_def k_def by simp
  have m: "(a * c) * (b * c) = a * b * k" for a b
  proof -
    have "(a * c) * (b * c) = a * b * (c * c)" by (simp add: algebra_simps)
    with cc show ?thesis by simp
  qed
  from s sensed_z_axis_eq[OF nq] have
    "zx = (x * c) * (z * c) + (y * c) * (w * c)"
    "zy = (y * c) * (z * c) - (x * c) * (w * c)"
    "zz = 1 - (x * c) * (x * c) - (y * c) * (y * c)"
    unfolding n_def[symmetric] c_def[symmetric] Let_def by simp_all
  then have zx: "zx = (x * z + y * w) * k" and zy: "zy = (y * z - x * w) * k"
    and zz: "zz = 1 - (x * x + y * y) * k"
    unfolding m by (simp_all add: algebra_simps)
  have "zx * zx + zy * zy + zz * zz
        = 1 + (x * x + y * y) * k * (k * n - 2)"
    unfolding zx zy zz n_def by (simp add: algebra_simps)
  with kn show ?thesis by simp
qed

lemma sum_squares_pos:
  fixes a b :: real
  assumes "a \<noteq> 0 \<or> b \<noteq> 0"
  shows "0 < a * a + b * b"
proof -
  have "0 \<le> a * a" "0 \<le> b * b" by simp_all
  moreover from assms have "0 < a * a \<or> 0 < b * b" by (simp add: zero_less_mult_iff) (metis linorder_neqE_linordered_idom)
  ultimately show ?thesis by linarith
qed

lemma general_x_axis:
  assumes nz: "a \<noteq> 0 \<or> b \<noteq> 0"
  shows "div_by_norm (cross (Fin a, Fin b, Fin c) (Fin 0, Fin 0, Fin 1))
         = (Fin (b / sqrt (a * a + b * b)), Fin (- (a / sqrt (a * a + b * b))), Fin 0)"
proof -
  have p: "0 < a * a + b * b" using nz by (rule sum_squares_pos)
  have cr: "cross (Fin a, Fin b, Fin c) (Fin 0, Fin 0, Fin 1) = (Fin b, Fin (- a), Fin 0)"
    by (simp add: cross_def fl_ops)
  have n: "norm3 (Fin b, Fin (- a), Fin 0) = Fin (sqrt (a * a + b * b))"
    by (simp add: norm3_def fl_ops add.commute)
  from p have "0 < sqrt (a * a + b * b)" by (rule real_sqrt_gt_zero)
  then have "sqrt (a * a + b * b) \<noteq> 0" by linarith
  then show ?thesis unfolding cr div_by_norm_def n by simp
qed

lemma general_y_axis:
  assumes u: "a * a + b * b + c * c = 1" and nz: "a \<noteq> 0 \<or> b \<noteq> 0"
  shows "div_by_norm (cross (Fin a, Fin b, Fin c)
            (Fin (b / sqrt (a * a + b * b)), Fin (- (a / sqrt (a * a + b * b))), Fin 0))
         = (Fin (c * a / sqrt (a * a + b * b)), Fin (c * b / sqrt (a * a + b * b)),
            Fin (- sqrt (a * a + b * b)))"
proof -
  define n where "n = sqrt (a * a + b * b)"
  have p: "0 < a * a + b * b" using nz by (rule sum_squares_pos)
  then have n0: "0 < n" unfolding n_def by (rule real_sqrt_gt_zero)
  have nn: "n * n = a * a + b * b" using p by (simp add: n_def)
  have t: "a * (- (a / n)) - b * (b / n) = - n"
  proof -
    have "a * (- (a / n)) - b * (b / n) = - ((a * a + b * b) / n)"
      by (simp add: add_divide_distrib)
    also have "\<dots> = - ((n * n) / n)" by (simp add: nn)
    also have "\<dots> = - n" using n0 by simp
    finally show ?thesis .
  qed
  have cr: "cross (Fin a, Fin b, Fin c) (Fin (b / n), Fin (- (a / n)), Fin 0)
            = (Fin (c * a / n), Fin (c * b / n), Fin (- n))"
    using t by (simp add: cross_def fl_ops)
  have sq: "c * a / n * (c * a / n) + c * b / n * (c * b / n) + - n * - n = 1"
  proof -
    have "c * a / n * (c * a / n) + c * b / n * (c * b / n)
          = c * c * (a * a + b * b) / (n * n)"
      by (simp add: add_divide_distrib algebra_simps)
    also have "\<dots> = c * c * (n * n) / (n * n)" by (simp only: nn)
    also have "\<dots> = c * c" using n0 by simp
    finally show ?thesis using nn u by simp
  qed
  have nm: "norm3 (Fin (c * a / n), Fin (c * b / n), Fin (- n)) = Fin 1"
    by (simp only: norm3_def prod.case fl_ops lift2.simps fsqrt.simps sq real_sqrt_one)
  show ?thesis
    unfolding n_def[symmetric] cr div_by_norm_def nm by simp
qed

lemma orthonormal_general:
  assumes u: "a * a + b * b + c * c = 1" and nz: "a \<noteq> 0 \<or> b \<noteq> 0"
  shows "orthonormal \<lparr>z_axis = (Fin a, Fin b, Fin c),
            x_axis = (Fin (b / sqrt (a * a + b * b)), Fin (- (a / sqrt (a * a + b * b))), Fin 0),
            y_axis = (Fin (c * a / sqrt (a * a + b * b)), Fin (c * b / sqrt (a * a + b * b)),
                      Fin (- sqrt (a * a + b * b))),
            q2 = r, pos_offset_fixture_x = ox, pos_offset_fixture_z = oz, q_fixture = qf\<rparr>"
proof -
  define n where "n = sqrt (a * a + b * b)"
  have p: "0 < a * a + b * b" using nz by (rule sum_squares_pos)
  then have n0: "0 < n" unfolding n_def by (rule real_sqrt_gt_zero)
  have nn: "n * n = a * a + b * b" using p by (simp add: n_def)
  have zx: "a * (b / n) + b * (- (a / n)) + c * 0 = 0" by simp
  have zy: "a * (c * a / n) + b * (c * b / n) + c * (- n) = 0"
  proof -
    have "a * (c * a / n) + b * (c * b / n) = c * (a * a + b * b) / n"
      by (simp add: add_divide_distrib algebra_simps)
    also have "\<dots> = c * (n * n) / n" by (simp add: nn)
    also have "\<dots> = c * n" using n0 by simp
    finally show ?thesis by simp
  qed
  have xy: "b / n * (c * a / n) + - (a / n) * (c * b / n) + 0 * (- n) = 0" by simp
  have nz1: "sqrt (a * a + b * b + c * c) = 1" using u by simp
  have nx: "sqrt (b / n * (b / n) + - (a / n) * (- (a / n)) + 0 * 0) = 1"
  proof -
    have "b / n * (b / n) + - (a / n) * (- (a / n)) + 0 * 0 = (a * a + b * b) / (n * n)"
      by (simp add: add_divide_distrib algebra_simps)
    also have "\<dots> = (n * n) / (n * n)" by (simp only: nn)
    also have "\<dots> = 1" using n0 by simp
    finally show ?thesis by simp
  qed
  have ny: "sqrt (c * a / n * (c * a / n) + c * b / n * (c * b / n) + - n * - n) = 1"
  proof -
    have "c * a / n * (c * a / n) + c * b / n * (c * b / n)
          = c * c * (a * a + b * b) / (n * n)"
      by (simp add: add_divide_distrib algebra_simps)
    also have "\<dots> = c * c * (n * n) / (n * n)" by (simp only: nn)
    also have "\<dots> = c * c" using n0 by simp
    finally have "c * a / n * (c * a / n) + c * b / n * (c * b / n) + - n * - n = 1"
      using nn u by simp
    then show ?thesis by (simp only: real_sqrt_one)
  qed
  show ?thesis
    unfolding n_def[symmetric] orthonormal_def dot_def norm3_def
    by (simp only: frame.simps prod.case fl_ops lift2.simps zx zy xy nz1 nx ny fabs.simps
        fsqrt.simps flt.simps) simp
qed

lemma orthonormal_degenerate:
  "orthonormal \<lparr>z_axis = (Fin 1, Fin 0, Fin 0), x_axis = (Fin 0, Fin 1, Fin 0),
      y_axis = (Fin 0, Fin 0, Fin 1),
      q2 = r, pos_offset_fixture_x = ox, pos_offset_fixture_z = oz, q_fixture = qf\<rparr>"
  by (simp add: orthonormal_def dot_def norm3_def fl_ops)

lemma frame_builder_orthonormal:
  assumes nq: "x * x + y * y + z * z + w * w = 1"
    and s: "sensed_z_axis (x, y, z, w) = (zx, zy, zz)"
    and ok: "isclose zz 1 \<or> zx \<noteq> 0 \<or> zy \<noteq> 0"
  shows "orthonormal (frame_builder (x, y, z, w))"
proof (cases "isclose zz 1")
  case True
  with s show ?thesis by (simp add: frame_builder_def orthonormal_degenerate)
next
  case False
  with ok have nz: "zx \<noteq> 0 \<or> zy \<noteq> 0" by simp
  have "EPS \<le> x * x + y * y + z * z + w * w" unfolding nq by (simp add: EPS_def)
  from sensed_z_axis_unit[OF this s] have u: "zx * zx + zy * zy + zz * zz = 1" .
  have "frame_builder (x, y, z, w) =
      \<lparr>z_axis = (Fin zx, Fin zy, Fin zz),
       x_axis = (Fin (zy / sqrt (zx * zx + zy * zy)), Fin (- (zx / sqrt (zx * zx + zy * zy))), Fin 0),
       y_axis = (Fin (zz * zx / sqrt (zx * zx + zy * zy)), Fin (zz * zy / sqrt (zx * zx + zy * zy)),
                      Fin (- sqrt (zx * zx + zy * zy))),
       q2 = quaternion_from_euler 0 0 (- pi / 4),
       pos_offset_fixture_x = - 0.1027,
       pos_offset_fixture_z = 0,
       q_fixture = quaternion_from_euler (- tau / 4) (- tau / 8) (- tau / 4)\<rparr>"
    unfolding frame_builder_def s Let_def prod.case general_x_axis[OF nz] general_y_axis[OF u nz]
    using False by simp
  then show ?thesis by (simp only: orthonormal_general[OF u nz])
qed

text \<open>
  Claim C3, at the unit quaternion \<open>(1, 0, 0, 0)\<close>: the frame builder returns the axes
  \<open>z = [0, 0, - 1]\<close>, \<open>x = y = [nan, nan, nan]\<close>, which are not orthonormal. For every other
  unit quaternion (lemma \<open>frame_builder_orthonormal\<close> above: the sensed axis is not
  \<open>[0, 0, - 1]\<close>) the frame is orthonormal.
\<close>
theorem frame_not_orthonormal_when_antiparallel:
  "(1::real) * 1 + 0 * 0 + 0 * 0 + 0 * 0 = 1
   \<and> frame_builder (1, 0, 0, 0) =
     \<lparr>z_axis = (Fin 0, Fin 0, Fin (- 1)), x_axis = (NaN, NaN, NaN), y_axis = (NaN, NaN, NaN),
      q2 = quaternion_from_euler 0 0 (- pi / 4),
      pos_offset_fixture_x = - 0.1027, pos_offset_fixture_z = 0,
      q_fixture = quaternion_from_euler (- tau / 4) (- tau / 8) (- tau / 4)\<rparr>
   \<and> \<not> orthonormal (frame_builder (1, 0, 0, 0))"
  by (simp add: frame_builder_flipped orthonormal_def dot_def norm3_def fl_ops)


subsection \<open>The order of the quaternion product\<close>

lemma rotate_unit:
  assumes "x * x + y * y + z * z + w * w = 1"
  shows "rotate (x, y, z, w) (a, b, c) =
     ((1 - 2 * (y * y) - 2 * (z * z)) * a + (2 * (x * y) - 2 * (z * w)) * b + (2 * (x * z) + 2 * (y * w)) * c,
      (2 * (x * y) + 2 * (z * w)) * a + (1 - 2 * (x * x) - 2 * (z * z)) * b + (2 * (y * z) - 2 * (x * w)) * c,
      (2 * (x * z) - 2 * (y * w)) * a + (2 * (y * z) + 2 * (x * w)) * b + (1 - 2 * (x * x) - 2 * (y * y)) * c)"
proof -
  have e: "\<not> (1::real) < EPS" by (simp add: EPS_def)
  have m: "(p * sqrt 2) * (q * sqrt 2) = 2 * (p * q)" for p q :: real
  proof -
    have "(p * sqrt 2) * (q * sqrt 2) = p * q * (sqrt 2 * sqrt 2)" by (simp add: algebra_simps)
    then show ?thesis by simp
  qed
  show ?thesis
    unfolding rotate_def quaternion_matrix_def prod.case assms Let_def of_rows_def
    by (simp only: e if_False div_by_1 m nth_Cons_0 nth_Cons_Suc nth_Cons_numeral
        One_nat_def numeral_2_eq_2 numeral_3_eq_3 diff_Suc_1 pred_numeral_simps arith_simps)
qed

lemma product_unit_and_rotation:
  fixes a1 b1 z1 d1 a0 b0 c0 d0 :: real
  assumes u1: "a1 * a1 + b1 * b1 + c1 * c1 + d1 * d1 = 1"
    and u0: "a0 * a0 + b0 * b0 + c0 * c0 + d0 * d0 = 1"
  defines "px \<equiv> a1 * d0 + b1 * c0 - c1 * b0 + d1 * a0"
    and "py \<equiv> - a1 * c0 + b1 * d0 + c1 * a0 + d1 * b0"
    and "pz \<equiv> a1 * b0 - b1 * a0 + c1 * d0 + d1 * c0"
    and "pw \<equiv> - a1 * a0 - b1 * b0 - c1 * c0 + d1 * d0"
  shows "px * px + py * py + pz * pz + pw * pw = 1"
    and "rotate (px, py, pz, pw) (a, b, c) = rotate (a1, b1, c1, d1) (rotate (a0, b0, c0, d0) (a, b, c))"
proof -
  have n: "px * px + py * py + pz * pz + pw * pw
      = (a1 * a1 + b1 * b1 + c1 * c1 + d1 * d1) * (a0 * a0 + b0 * b0 + c0 * c0 + d0 * d0)"
    unfolding px_def py_def pz_def pw_def by (simp add: algebra_simps)
  then show u: "px * px + py * py + pz * pz + pw * pw = 1" using u1 u0 by simp
  show "rotate (px, py, pz, pw) (a, b, c) = rotate (a1, b1, c1, d1) (rotate (a0, b0, c0, d0) (a, b, c))"
    unfolding rotate_unit[OF u] rotate_unit[OF u0] rotate_unit[OF u1]
    unfolding px_def py_def pz_def pw_def prod.inject
    using u1 u0 by (intro conjI) algebra+
qed


lemma quaternion_multiply_composes:
  assumes u1: "a1 * a1 + b1 * b1 + c1 * c1 + d1 * d1 = 1"
    and u0: "a0 * a0 + b0 * b0 + c0 * c0 + d0 * d0 = 1"
  shows "\<exists>r. quaternion_multiply (fquat_of (a1, b1, c1, d1)) (fquat_of (a0, b0, c0, d0))
               = fquat_of r
             \<and> rotate r v = rotate (a1, b1, c1, d1) (rotate (a0, b0, c0, d0) v)"
proof -
  obtain a b c where v: "v = (a, b, c)" by (cases v) auto
  let ?r = "(a1 * d0 + b1 * c0 - c1 * b0 + d1 * a0,
             - a1 * c0 + b1 * d0 + c1 * a0 + d1 * b0,
             a1 * b0 - b1 * a0 + c1 * d0 + d1 * c0,
             - a1 * a0 - b1 * b0 - c1 * c0 + d1 * d0)"
  have "quaternion_multiply (fquat_of (a1, b1, c1, d1)) (fquat_of (a0, b0, c0, d0)) = fquat_of ?r"
    by (simp add: quaternion_multiply_def fadd_def fsub_def fmul_def)
  moreover have "rotate ?r v = rotate (a1, b1, c1, d1) (rotate (a0, b0, c0, d0) v)"
    unfolding v by (rule product_unit_and_rotation(2)[OF u1 u0])
  ultimately show ?thesis by blast
qed

text \<open>
  Claim C7. The grasp orientation is \<open>quaternion_multiply q2 q\<close>, with the offset \<open>q2\<close>
  of the branch as the first argument and the quaternion of the frame as the second.
  At the input \<open>(0, 1, 0, 1)\<close> the product in the other order is a different quaternion,
  and not its negative either, so that it is a different orientation. The first argument
  is the outer rotation: the product of two unit quaternions rotates a vector by the second
  argument first and by the first argument after it.
\<close>
theorem grasp_orientation_order:
  assumes "a1 * a1 + b1 * b1 + c1 * c1 + d1 * d1 = 1"
    and "a0 * a0 + b0 * b0 + c0 * c0 + d0 * d0 = 1"
  shows "grasp_orientation q =
     (case quaternion_from_matrix (frame_matrix (frame_builder q)) of
        Inl err \<Rightarrow> Inl err
      | Inr qf \<Rightarrow> Inr (quaternion_multiply (fquat_of (q2 (frame_builder q))) qf))
   \<and> (\<exists>p qf. quaternion_from_matrix (frame_matrix (frame_builder p)) = Inr qf
        \<and> quaternion_multiply (fquat_of (q2 (frame_builder p))) qf
            \<noteq> quaternion_multiply qf (fquat_of (q2 (frame_builder p)))
        \<and> quaternion_multiply (fquat_of (q2 (frame_builder p))) qf
            \<noteq> (case quaternion_multiply qf (fquat_of (q2 (frame_builder p))) of
                 (a, b, c, d) \<Rightarrow> (fneg a, fneg b, fneg c, fneg d)))
   \<and> (\<exists>r. quaternion_multiply (fquat_of (a1, b1, c1, d1)) (fquat_of (a0, b0, c0, d0))
               = fquat_of r
          \<and> rotate r v = rotate (a1, b1, c1, d1) (rotate (a0, b0, c0, d0) v))"
proof -
  have a: "grasp_orientation q =
     (case quaternion_from_matrix (frame_matrix (frame_builder q)) of
        Inl err \<Rightarrow> Inl err
      | Inr qf \<Rightarrow> Inr (quaternion_multiply (fquat_of (q2 (frame_builder q))) qf))"
    by (simp add: grasp_orientation_def Let_def)
  let ?p = "(0, 1, 0, 1) :: quat"
  let ?qf = "(Fin 1, Fin 0, Fin 0, Fin 0)"
  have q: "fquat_of (q2 (frame_builder ?p)) = (Fin 0, Fin 0, Fin (- sin (pi / 8)), Fin (cos (pi / 8)))"
    using q2_general by (simp add: frame_builder_side)
  have l: "quaternion_multiply (fquat_of (q2 (frame_builder ?p))) ?qf
           = (Fin (cos (pi / 8)), Fin (- sin (pi / 8)), Fin 0, Fin 0)"
    unfolding q by (simp add: quaternion_multiply_def fl_ops)
  have r: "quaternion_multiply ?qf (fquat_of (q2 (frame_builder ?p)))
           = (Fin (cos (pi / 8)), Fin (sin (pi / 8)), Fin 0, Fin 0)"
    unfolding q by (simp add: quaternion_multiply_def fl_ops)
  have b: "quaternion_multiply (fquat_of (q2 (frame_builder ?p))) ?qf
            \<noteq> quaternion_multiply ?qf (fquat_of (q2 (frame_builder ?p)))"
    unfolding l r using sin_pi_8_pos by simp
  have c: "quaternion_multiply (fquat_of (q2 (frame_builder ?p))) ?qf
            \<noteq> (case quaternion_multiply ?qf (fquat_of (q2 (frame_builder ?p))) of
                 (a, b, c, d) \<Rightarrow> (fneg a, fneg b, fneg c, fneg d))"
    unfolding l r using cos_pi_8_pos by simp
  from quaternion_from_matrix_side b c have
    "\<exists>p qf. quaternion_from_matrix (frame_matrix (frame_builder p)) = Inr qf
        \<and> quaternion_multiply (fquat_of (q2 (frame_builder p))) qf
            \<noteq> quaternion_multiply qf (fquat_of (q2 (frame_builder p)))
        \<and> quaternion_multiply (fquat_of (q2 (frame_builder p))) qf
            \<noteq> (case quaternion_multiply qf (fquat_of (q2 (frame_builder p))) of
                 (a, b, c, d) \<Rightarrow> (fneg a, fneg b, fneg c, fneg d))"
    by blast
  with a quaternion_multiply_composes[OF assms, of v] show ?thesis by blast
qed

theorem grasp_orientation_order_witness:
  "(\<exists>r. quaternion_multiply (fquat_of (0, 0, 1, 0)) (fquat_of (1, 0, 0, 0)) = fquat_of r
       \<and> rotate r (0, 1, 0) = rotate (0, 0, 1, 0) (rotate (1, 0, 0, 0) (0, 1, 0)))
   \<and> rotate (0, 0, 1, 0) (rotate (1, 0, 0, 0) (0, 1, 0)) = (0, 1, 0)"
  using grasp_orientation_order[of 0 0 1 0 1 0 0 0 _ "(0, 1, 0)"]
  by (simp add: rotate_unit)


end
